theory Spec2Isabelle
  imports Complex_Main
begin

section \<open>Floating-point values and text primitives\<close>

text \<open>
  A table cell is a Python float. A finite float is modelled by a real number, and
  arithmetic on finite floats by exact arithmetic: rounding to binary64 and underflow
  are idealised away. A comparison whose two sides differ by less than the rounding
  error may therefore be decided differently by the program; the theorems below either
  do not depend on such a comparison or keep their hypotheses away from its threshold.
  The three special values are kept apart, because \<open>float()\<close> produces them from text
  and \<open>numpy.isfinite\<close> filters them. \<open>NaN\<close> is also the missing-value marker of
  \<open>numpy.full(..., nan)\<close>.
\<close>

datatype pyfloat = Fin real | PInf | NInf | NaN

datatype error = FileNotFoundError | ValueError string

fun isfinite :: "pyfloat \<Rightarrow> bool" where
  "isfinite (Fin _) = True"
| "isfinite _ = False"

fun isnan :: "pyfloat \<Rightarrow> bool" where
  "isnan NaN = True"
| "isnan _ = False"

text \<open>
  Text is ASCII: a \<open>char\<close> is one byte. The white space of \<open>str.strip()\<close> and of
  the regular expression class \<open>\s\<close> is, among the ASCII characters, TAB, LF, VT, FF,
  CR, the four separators FS, GS, RS, US and the blank.
\<close>

definition is_space :: "char \<Rightarrow> bool" where
  "is_space c = (c \<in> set [CHR 0x09, CHR 0x0A, CHR 0x0B, CHR 0x0C, CHR 0x0D,
                            CHR 0x1C, CHR 0x1D, CHR 0x1E, CHR 0x1F, CHR 0x20])"

definition strip :: "string \<Rightarrow> string" where
  "strip s = rev (dropWhile is_space (rev (dropWhile is_space s)))"

definition to_lower :: "char \<Rightarrow> char" where
  "to_lower c = (if 65 \<le> (of_char c :: nat) \<and> (of_char c :: nat) \<le> 90
                 then char_of (of_char c + (32 :: nat)) else c)"

definition lower :: "string \<Rightarrow> string" where
  "lower s = map to_lower s"

fun startswith :: "string \<Rightarrow> string \<Rightarrow> bool" where
  "startswith s [] = True"
| "startswith [] (k # ks) = False"
| "startswith (c # cs) (k # ks) = (c = k \<and> startswith cs ks)"

text \<open>\<open>contains name key\<close> is Python's \<open>key in name\<close> on strings.\<close>

fun contains :: "string \<Rightarrow> string \<Rightarrow> bool" where
  "contains [] key = (key = [])"
| "contains (c # cs) key = (startswith (c # cs) key \<or> contains cs key)"

subsection \<open>The built-in \<open>float(str)\<close>\<close>

text \<open>
  \<open>py_float\<close> follows the grammar of Python's \<open>float()\<close> on a string without
  surrounding white space: an optional sign, then \<open>inf\<close>, \<open>infinity\<close> or \<open>nan\<close> in any
  letter case, or a decimal literal (digits with single underscores between them, an
  optional point, an optional exponent, at least one digit before or after the point).
  \<open>None\<close> is \<open>ValueError\<close>. A literal at or beyond the binary64 overflow threshold
  \<open>2^1024 - 2^970\<close> yields an infinity. The value of any other literal is its exact
  decimal value, where \<open>float()\<close> returns the nearest binary64 number (and zero for a
  literal that underflows).
\<close>

definition is_digit :: "char \<Rightarrow> bool" where
  "is_digit c = (48 \<le> (of_char c :: nat) \<and> (of_char c :: nat) \<le> 57)"

definition digit_val :: "char \<Rightarrow> nat" where
  "digit_val c = of_char c - 48"

definition is_digit_or_us :: "char \<Rightarrow> bool" where
  "is_digit_or_us c = (is_digit c \<or> c = CHR ''_'')"

fun valid_digitpart :: "string \<Rightarrow> bool" where
  "valid_digitpart [] = False"
| "valid_digitpart [c] = is_digit c"
| "valid_digitpart (c # d # cs) =
     (is_digit c \<and> (if d = CHR ''_'' then valid_digitpart cs else valid_digitpart (d # cs)))"

definition digits_val :: "string \<Rightarrow> nat" where
  "digits_val s = foldl (\<lambda>a c. 10 * a + digit_val c) 0 (filter is_digit s)"

definition split_sign :: "string \<Rightarrow> bool \<times> string" where
  "split_sign s =
     (case s of
        [] \<Rightarrow> (False, [])
      | c # cs \<Rightarrow> if c = CHR ''-'' then (True, cs)
                  else if c = CHR ''+'' then (False, cs) else (False, s))"

definition parse_exponent :: "string \<Rightarrow> int option" where
  "parse_exponent s =
     (case s of
        [] \<Rightarrow> Some 0
      | c # cs \<Rightarrow>
          if c = CHR ''e'' \<or> c = CHR ''E''
          then (let (neg, ds) = split_sign cs
                in if valid_digitpart ds
                   then Some (if neg then - int (digits_val ds) else int (digits_val ds))
                   else None)
          else None)"

definition scale10 :: "nat \<Rightarrow> int \<Rightarrow> real" where
  "scale10 m e = (if 0 \<le> e then real m * 10 ^ nat e else real m / 10 ^ nat (- e))"

definition overflow_threshold :: real where
  "overflow_threshold = 2 ^ 1024 - 2 ^ 970"

definition round_double :: "bool \<Rightarrow> real \<Rightarrow> pyfloat" where
  "round_double neg v =
     (if overflow_threshold \<le> v then (if neg then NInf else PInf)
      else Fin (if neg then - v else v))"

text \<open>
  The same function with the comparison against the threshold done last, so that
  evaluation of an ordinary literal never computes the threshold.
\<close>

lemma round_double_code [code]:
  "round_double neg v =
     (if v < 1000000000000 then Fin (if neg then - v else v)
      else if overflow_threshold \<le> v then (if neg then NInf else PInf)
      else Fin (if neg then - v else v))"
proof -
  have "(1000000000000::real) \<le> 2 ^ 1024 - 2 ^ 970" by simp
  then show ?thesis
    by (simp add: round_double_def overflow_threshold_def)
qed

definition parse_decimal :: "bool \<Rightarrow> string \<Rightarrow> pyfloat option" where
  "parse_decimal neg body =
     (let ip = takeWhile is_digit_or_us body;
          r1 = dropWhile is_digit_or_us body;
          (fp, r2) = (case r1 of
                        [] \<Rightarrow> ([], [])
                      | c # cs \<Rightarrow> if c = CHR ''.''
                                  then (takeWhile is_digit_or_us cs, dropWhile is_digit_or_us cs)
                                  else ([], r1))
      in if (ip = [] \<or> valid_digitpart ip) \<and> (fp = [] \<or> valid_digitpart fp)
            \<and> (ip \<noteq> [] \<or> fp \<noteq> [])
         then (case parse_exponent r2 of
                 None \<Rightarrow> None
               | Some e \<Rightarrow>
                   Some (round_double neg
                     (scale10 (digits_val (ip @ fp)) (e - int (length (filter is_digit fp))))))
         else None)"

definition py_float :: "string \<Rightarrow> pyfloat option" where
  "py_float s =
     (let (neg, body) = split_sign s; low = lower body
      in if low = ''inf'' \<or> low = ''infinity'' then Some (if neg then NInf else PInf)
         else if low = ''nan'' then Some NaN
         else parse_decimal neg body)"

section \<open>The numeric table loader (\<open>brdfplot._load_numeric_table\<close>)\<close>

text \<open>
  Splitting a text into lines at the characters \<open>brk\<close> accepts, CR LF counting as
  one break. The terminators are dropped: every reader below strips each line first.
  A text that ends with a break has no empty last line.
\<close>

function split_lines :: "(char \<Rightarrow> bool) \<Rightarrow> string \<Rightarrow> string list" where
  "split_lines brk [] = []"
| "split_lines brk (c # cs) =
     (if brk c
      then (if c = CHR 0x0D \<and> cs \<noteq> [] \<and> hd cs = CHR 0x0A then [] # split_lines brk (tl cs)
            else [] # split_lines brk cs)
      else (case split_lines brk cs of
              [] \<Rightarrow> [[c]]
            | l # ls \<Rightarrow> (c # l) # ls))"
  by pat_completeness auto
termination
  by (relation "measure (\<lambda>(brk, s). length s)") (auto simp: less_Suc_eq_le)

text \<open>
  Iterating a text file opened with universal newlines yields its lines, ended by LF,
  CR LF or CR.
\<close>

definition file_lines :: "string \<Rightarrow> string list" where
  "file_lines s = split_lines (\<lambda>c. c = CHR 0x0A \<or> c = CHR 0x0D) s"

text \<open>\<open>str.splitlines()\<close> also breaks at VT, FF, FS, GS and RS.\<close>

definition splitlines :: "string \<Rightarrow> string list" where
  "splitlines s = split_lines (\<lambda>c. c \<in> set [CHR 0x0A, CHR 0x0D, CHR 0x0B, CHR 0x0C,
                                                 CHR 0x1C, CHR 0x1D, CHR 0x1E]) s"

definition is_sep :: "char \<Rightarrow> bool" where
  "is_sep c = (is_space c \<or> c = CHR '','')"

text \<open>
  \<open>[tok for tok in re.split(r"[\s,]+", line) if tok]\<close>: the maximal runs of
  characters that are neither white space nor a comma. \<open>cur\<close> is the token being
  read, reversed.
\<close>

fun split_tokens :: "string \<Rightarrow> string \<Rightarrow> string list" where
  "split_tokens cur [] = (if cur = [] then [] else [rev cur])"
| "split_tokens cur (c # cs) =
     (if is_sep c
      then (if cur = [] then split_tokens [] cs else rev cur # split_tokens [] cs)
      else split_tokens (c # cur) cs)"

definition tokenize :: "string \<Rightarrow> string list" where
  "tokenize line = split_tokens [] line"

text \<open>\<open>tok.replace("D", "E").replace("d", "E")\<close>\<close>

definition cleaned :: "string \<Rightarrow> string" where
  "cleaned tok = map (\<lambda>c. if c = CHR ''D'' \<or> c = CHR ''d'' then CHR ''E'' else c) tok"

text \<open>The inner loop over the tokens of one line; \<open>None\<close> when a token raises.\<close>

fun parse_tokens :: "string list \<Rightarrow> pyfloat list option" where
  "parse_tokens [] = Some []"
| "parse_tokens (tok # toks) =
     (case py_float (cleaned tok) of
        None \<Rightarrow> None
      | Some v \<Rightarrow> (case parse_tokens toks of None \<Rightarrow> None | Some vs \<Rightarrow> Some (v # vs)))"

text \<open>One pass of the outer loop: the row a raw line contributes, if any.\<close>

definition line_row :: "string \<Rightarrow> pyfloat list option" where
  "line_row raw =
     (let line = strip raw
      in if line = [] \<or> startswith line ''#'' then None
         else (let tokens = tokenize line
               in if tokens = [] then None
                  else (case parse_tokens tokens of
                          None \<Rightarrow> None
                        | Some row \<Rightarrow> if row = [] then None else Some row)))"

fun collect_rows :: "string list \<Rightarrow> pyfloat list list" where
  "collect_rows [] = []"
| "collect_rows (raw # rest) =
     (case line_row raw of
        None \<Rightarrow> collect_rows rest
      | Some row \<Rightarrow> row # collect_rows rest)"

definition max_len :: "'a list list \<Rightarrow> nat" where
  "max_len rows = fold max (map length rows) 0"

definition pad_row :: "nat \<Rightarrow> pyfloat list \<Rightarrow> pyfloat list" where
  "pad_row width row = row @ replicate (width - length row) NaN"

text \<open>
  The argument is the content of the file at \<open>csv_path\<close>, \<open>None\<close> when no such file
  exists. The table is a list of rows of equal length.
\<close>

definition load_numeric_table :: "string option \<Rightarrow> error + pyfloat list list" where
  "load_numeric_table file =
     (case file of
        None \<Rightarrow> Inl FileNotFoundError
      | Some text \<Rightarrow>
          (let rows = collect_rows (file_lines text)
           in if rows = [] then Inl (ValueError ''No numeric rows detected in BRDF output.'')
              else Inr (map (pad_row (max_len rows)) rows)))"

section \<open>Column role inference and the log-scale decision (\<open>brdfplot.plot_csv\<close>)\<close>

text \<open>
  The keyword arguments of \<open>plot_csv\<close> that decide the roles, and the two entries of
  the metadata dictionary it reads. A missing or \<open>null\<close> entry is \<open>None\<close>; an empty
  or missing \<open>header_tokens\<close> list is \<open>[]\<close>. The scan bounds are finite numbers.
\<close>

record plot_meta =
  header_tokens :: "string list"
  scatter_start :: "real option"
  scatter_end :: "real option"

record plot_args =
  x_col :: "int option"
  y_col :: "int option"
  semilogy :: bool
  meta :: "plot_meta option"

datatype yscale = Log | Linear

record plot_result =
  axis_column :: nat
  series :: "nat list"
  y_scale :: yscale

text \<open>\<open>data.shape[1]\<close> and \<open>data[:, idx]\<close> of a table held as a list of rows.\<close>

definition ncols_of :: "pyfloat list list \<Rightarrow> nat" where
  "ncols_of data = (case data of [] \<Rightarrow> 0 | row # _ \<Rightarrow> length row)"

definition column :: "pyfloat list list \<Rightarrow> nat \<Rightarrow> pyfloat list" where
  "column data idx = map (\<lambda>row. row ! idx) data"

text \<open>\<open>col[np.isfinite(col)]\<close>\<close>

fun finite_values :: "pyfloat list \<Rightarrow> real list" where
  "finite_values [] = []"
| "finite_values (Fin x # vs) = x # finite_values vs"
| "finite_values (v # vs) = finite_values vs"

text \<open>
  The rows on which both the axis value and the column value are finite:
  \<open>mask = np.isfinite(x_vals) & np.isfinite(col)\<close>, as pairs \<open>(x_vals[mask], col[mask])\<close>.
\<close>

fun shared_rows :: "pyfloat list \<Rightarrow> pyfloat list \<Rightarrow> (real \<times> real) list" where
  "shared_rows (Fin x # xs) (Fin v # vs) = (x, v) # shared_rows xs vs"
| "shared_rows (x # xs) (v # vs) = shared_rows xs vs"
| "shared_rows _ _ = []"

text \<open>\<open>np.diff\<close>, and \<open>np.mean\<close> of a boolean array.\<close>

definition diff :: "real list \<Rightarrow> real list" where
  "diff xs = map (\<lambda>(a, b). b - a) (zip xs (tl xs))"

definition frac :: "('a \<Rightarrow> bool) \<Rightarrow> 'a list \<Rightarrow> real" where
  "frac P xs = real (length (filter P xs)) / real (length xs)"

definition header_lower_of :: "plot_args \<Rightarrow> nat \<Rightarrow> string list" where
  "header_lower_of args ncols =
     (let toks = (case meta args of None \<Rightarrow> [] | Some m \<Rightarrow> header_tokens m);
          hl = map (\<lambda>tok. lower (strip tok)) toks
      in hl @ replicate (ncols - length hl) [])"

definition expected_range :: "plot_args \<Rightarrow> (real \<times> real) option" where
  "expected_range args =
     (case meta args of
        None \<Rightarrow> None
      | Some m \<Rightarrow>
          (case (scatter_start m, scatter_end m) of
             (Some a, Some b) \<Rightarrow> Some (min a b, max a b)
           | _ \<Rightarrow> None))"

definition monotonicity :: "real list \<Rightarrow> real" where
  "monotonicity finite_vals =
     (let diffs = diff finite_vals
      in if diffs \<noteq> []
         then max (frac (\<lambda>d. - (1 / 100000000) \<le> d) diffs) (frac (\<lambda>d. d \<le> 1 / 100000000) diffs)
         else 0)"

definition axis_keys :: "string list" where
  "axis_keys = [''theta_r'', ''theta_s'', ''thetas'', ''scatter'', ''scatt'', ''view'']"

definition header_score :: "string \<Rightarrow> real" where
  "header_score name =
     (if name \<noteq> []
      then (if list_ex (contains name) axis_keys then 5 / 2 else 0)
         + (if contains name ''angle'' then 1 / 2 else 0)
         - (if contains name ''phi'' \<or> contains name ''azimuth'' then 1 else 0)
      else 0)"

definition closeness :: "(real \<times> real) option \<Rightarrow> real \<Rightarrow> real \<Rightarrow> real" where
  "closeness expected lo_val hi_val =
     (case expected of
        None \<Rightarrow> 0
      | Some (exp_min, exp_max) \<Rightarrow>
          if exp_max > exp_min
          then 1 - (\<bar>lo_val - exp_min\<bar> + \<bar>hi_val - exp_max\<bar>)
                     / (2 * max (exp_max - exp_min) (1 / 1000000))
          else 0)"

text \<open>
  The body of the loop of \<open>_select_x_column\<close>; \<open>None\<close> is \<open>continue\<close>. The spread test
  and the sum of the score are exact here and binary64 in the program.
\<close>

definition column_score :: "(real \<times> real) option \<Rightarrow> string \<Rightarrow> pyfloat list \<Rightarrow> real option" where
  "column_score expected name col =
     (let finite_vals = finite_values col
      in if length finite_vals < 3 then None
         else (let spread = Max (set finite_vals) - Min (set finite_vals)
               in if spread < 1 / 1000000 then None
                  else Some (18 / 10 * monotonicity finite_vals + min (spread / 180) 1
                             + header_score name
                             + closeness expected (Min (set finite_vals)) (Max (set finite_vals)))))"

text \<open>
  \<open>best_idx, best_score\<close>: \<open>None\<close> stands for \<open>best_idx = None\<close> with the score
  \<open>-inf\<close>, below every score.
\<close>

definition keep_best :: "(nat \<Rightarrow> real option) \<Rightarrow> nat \<Rightarrow> (nat \<times> real) option \<Rightarrow> (nat \<times> real) option" where
  "keep_best score idx best =
     (case score idx of
        None \<Rightarrow> best
      | Some s \<Rightarrow>
          (case best of
             None \<Rightarrow> Some (idx, s)
           | Some (best_idx, best_score) \<Rightarrow> if s > best_score then Some (idx, s) else best))"

definition select_x_column :: "plot_args \<Rightarrow> pyfloat list list \<Rightarrow> nat" where
  "select_x_column args data =
     (let ncols = ncols_of data; header_lower = header_lower_of args ncols
      in case (case x_col args of
                 Some x \<Rightarrow> if 0 \<le> x \<and> x < int ncols then Some (nat x) else None
               | None \<Rightarrow> None) of
           Some x \<Rightarrow> x
         | None \<Rightarrow>
             (case fold (keep_best (\<lambda>idx. column_score (expected_range args)
                                            (header_lower ! idx) (column data idx)))
                        [0..<ncols] None of
                Some (best_idx, _) \<Rightarrow> best_idx
              | None \<Rightarrow> nat (max 0 (if ncols > 2 then 2 else int ncols - 1))))"

definition geometry_keys :: "string list" where
  "geometry_keys = [''theta_i'', ''thetai'', ''incident'', ''azimuth'', ''phi'', ''rotation'',
                    ''lambda'', ''wavelength'', ''index'', ''type'']"

text \<open>
  \<open>np.allclose(vals, x_vals[mask], rtol=1e-5, atol=1e-4)\<close> on finite values, with the
  exact constants and exact arithmetic; the program compares in binary64, so a pair at
  the very edge of the tolerance may be decided differently. Equal values are close in
  both.
\<close>

definition allclose :: "(real \<times> real) list \<Rightarrow> bool" where
  "allclose pairs = list_all (\<lambda>(x, v). \<bar>v - x\<bar> \<le> 1 / 10000 + 1 / 100000 * \<bar>x\<bar>) pairs"

text \<open>\<open>np.nanstd\<close> of values none of which is nan or infinite.\<close>

definition mean :: "real list \<Rightarrow> real" where
  "mean xs = sum_list xs / real (length xs)"

definition nanstd :: "real list \<Rightarrow> real" where
  "nanstd xs = sqrt (mean (map (\<lambda>x. (x - mean xs)\<^sup>2) xs))"

text \<open>
  \<open>np.nanstd(data[:, fallback])\<close> of a whole column: nan entries are left out, an
  infinite entry or a column of nan only gives nan.
\<close>

definition nanstd_column :: "pyfloat list \<Rightarrow> pyfloat" where
  "nanstd_column col =
     (let present = filter (\<lambda>v. \<not> isnan v) col
      in if present = [] \<or> \<not> list_all isfinite present then NaN
         else Fin (nanstd (finite_values present)))"

text \<open>The body of the loop of \<open>_select_measure_columns\<close>: whether \<open>idx\<close> is appended.\<close>

definition measure_candidate :: "string list \<Rightarrow> pyfloat list list \<Rightarrow> nat \<Rightarrow> nat \<Rightarrow> (nat \<times> pyfloat) option" where
  "measure_candidate header_lower data x_idx idx =
     (if idx = x_idx then None
      else (let pairs = shared_rows (column data x_idx) (column data idx)
            in if length pairs < 2 then None
               else (let vals = map snd pairs
                     in if allclose pairs then None
                        else if Max (set vals) - Min (set vals) < 1 / 10 ^ 12 then None
                        else (let name = header_lower ! idx
                              in if name \<noteq> [] \<and> list_ex (contains name) geometry_keys then None
                                 else Some (idx, Fin (nanstd vals))))))"

text \<open>
  \<open>candidates.sort(key=..., reverse=True)\<close>: a stable sort by descending key. \<open>py_lt\<close>
  is \<open><\<close> on floats, false whenever an operand is nan.
\<close>

fun py_lt :: "pyfloat \<Rightarrow> pyfloat \<Rightarrow> bool" where
  "py_lt (Fin a) (Fin b) = (a < b)"
| "py_lt NaN _ = False"
| "py_lt _ NaN = False"
| "py_lt NInf b = (b \<noteq> NInf)"
| "py_lt a PInf = (a \<noteq> PInf)"
| "py_lt _ _ = False"

fun insert_desc :: "nat \<times> pyfloat \<Rightarrow> (nat \<times> pyfloat) list \<Rightarrow> (nat \<times> pyfloat) list" where
  "insert_desc x [] = [x]"
| "insert_desc x (y # ys) = (if py_lt (snd x) (snd y) then y # insert_desc x ys else x # y # ys)"

definition sort_desc :: "(nat \<times> pyfloat) list \<Rightarrow> (nat \<times> pyfloat) list" where
  "sort_desc xs = foldr insert_desc xs []"

definition measure_candidates :: "string list \<Rightarrow> pyfloat list list \<Rightarrow> nat \<Rightarrow> (nat \<times> pyfloat) list" where
  "measure_candidates header_lower data x_idx =
     List.map_filter (measure_candidate header_lower data x_idx) [0..<ncols_of data]"

definition measure_fallback :: "pyfloat list list \<Rightarrow> nat \<Rightarrow> (nat \<times> pyfloat) list" where
  "measure_fallback data x_idx =
     (let ncols = int (ncols_of data);
          fallback = ncols - 1;
          fallback = (if fallback = int x_idx \<and> fallback > 0 then fallback - 1 else fallback)
      in if 0 \<le> fallback \<and> fallback < ncols \<and> fallback \<noteq> int x_idx
         then [(nat fallback, nanstd_column (column data (nat fallback)))]
         else [])"

definition select_measure_columns :: "plot_args \<Rightarrow> pyfloat list list \<Rightarrow> nat \<Rightarrow> nat list" where
  "select_measure_columns args data x_idx =
     (let ncols = ncols_of data; header_lower = header_lower_of args ncols
      in case (case y_col args of
                 Some y \<Rightarrow> if 0 \<le> y \<and> y < int ncols then Some (nat y) else None
               | None \<Rightarrow> None) of
           Some y \<Rightarrow> [y]
         | None \<Rightarrow>
             (let candidates = measure_candidates header_lower data x_idx;
                  candidates = (if candidates = [] then measure_fallback data x_idx
                                else candidates)
              in map fst (sort_desc candidates)))"

text \<open>
  The loop that fills \<open>valid_indices\<close> and \<open>positive_scores\<close>: a measurement column
  without a row shared with the axis is left out; the score of another is the share of
  strictly positive values among its values on the shared rows.
\<close>

definition positive_score :: "pyfloat list list \<Rightarrow> nat \<Rightarrow> nat \<Rightarrow> real" where
  "positive_score data x_idx idx =
     frac (\<lambda>v. v > 0) (map snd (shared_rows (column data x_idx) (column data idx)))"

definition valid_indices_of :: "pyfloat list list \<Rightarrow> nat \<Rightarrow> nat list \<Rightarrow> nat list" where
  "valid_indices_of data x_idx measure_indices =
     filter (\<lambda>idx. shared_rows (column data x_idx) (column data idx) \<noteq> []) measure_indices"

text \<open>
  \<open>plot_csv\<close> up to the choice of the y scale and the collection of the x bounds. The
  drawing calls that follow raise nothing of their own and change neither the table
  nor the choice.
\<close>

definition plot_csv :: "plot_args \<Rightarrow> string option \<Rightarrow> error + plot_result" where
  "plot_csv args file =
     (case load_numeric_table file of
        Inl e \<Rightarrow> Inl e
      | Inr data \<Rightarrow>
          (let x_idx = select_x_column args data;
               measure_indices = select_measure_columns args data x_idx
           in if measure_indices = []
              then Inl (ValueError ''No measurement columns available for plotting.'')
              else (let valid_indices = valid_indices_of data x_idx measure_indices;
                        positive_scores = map (positive_score data x_idx) valid_indices
                    in if valid_indices = []
                       then Inl (ValueError ''No finite measurement data available for plotting.'')
                       else (let use_semilogy = (semilogy args \<and> positive_scores \<noteq> []
                                                  \<and> Min (set positive_scores) \<ge> 7 / 10);
                                 xs_drawn = concat (map (\<lambda>idx. map fst (shared_rows (column data x_idx)
                                                                          (column data idx)))
                                                       valid_indices)
                             in if xs_drawn = []
                                then Inl (ValueError ''Unable to determine X-axis bounds from data.'')
                                else Inr \<lparr> axis_column = x_idx, series = valid_indices,
                                           y_scale = (if use_semilogy then Log else Linear) \<rparr>))))"

section \<open>Running the solver and persisting its table (\<open>BRDFForm.run_brdfprog\<close>)\<close>

text \<open>
  The path fields of the form that \<open>run_brdfprog\<close> assigns, the text of its output box
  (one entry per \<open>setText\<close> or \<open>append\<close>) and the files of the data directory. The
  cached metadata dictionary and the plot canvas are left out.
\<close>

record form_state =
  files :: "string \<Rightarrow> string option"
  last_input_path :: "string option"
  last_stdout_path :: "string option"
  last_csv_path :: "string option"
  output_box :: "string list"

text \<open>
  What the environment decides during one run: how far the run gets, and which of the
  later writes fail. \<open>Exited exe returncode stdout stderr\<close> is a child process that ran
  to its end.
\<close>

datatype run_outcome =
    InputWriteFailed string
  | ExeNotFound
  | LaunchFailed string string
  | Exited string int string string

record run_env =
  timestamp :: string
  input_lines :: "string list"
  scatmech_bin :: string
  outcome :: run_outcome
  stdout_write_error :: "string option"
  csv_write_error :: "string option"
  meta_write_error :: "string option"
  meta_json :: string
  render_messages :: "string list"

definition input_filename :: "string \<Rightarrow> string" where
  "input_filename ts = ''../DATA/brdf_input_'' @ ts @ ''.txt''"

definition output_filename :: "string \<Rightarrow> string" where
  "output_filename ts = ''../DATA/brdf_output_'' @ ts @ ''.txt''"

definition csv_filename :: "string \<Rightarrow> string" where
  "csv_filename ts = ''../DATA/brdf_output_'' @ ts @ ''.csv''"

fun join :: "string \<Rightarrow> string list \<Rightarrow> string" where
  "join sep [] = []"
| "join sep [x] = x"
| "join sep (x # y # ys) = x @ sep @ join sep (y # ys)"

text \<open>The parsing loop over \<open>result.stdout.splitlines()\<close>.\<close>

record parse_state =
  numeric_rows :: "pyfloat list list"
  header_tokens_found :: "string list"
  last_text_tokens :: "string list"

definition parse_line :: "string \<Rightarrow> parse_state \<Rightarrow> parse_state" where
  "parse_line raw_line st =
     (let line = strip raw_line
      in if line = [] \<or> startswith line ''#'' then st
         else (let tokens = tokenize line
               in if tokens = [] then st
                  else (case parse_tokens tokens of
                          Some row \<Rightarrow>
                            if row \<noteq> []
                            then st\<lparr> numeric_rows := numeric_rows st @ [row],
                                     header_tokens_found :=
                                       (if header_tokens_found st = [] \<and> last_text_tokens st \<noteq> []
                                        then last_text_tokens st else header_tokens_found st) \<rparr>
                            else st\<lparr> last_text_tokens := tokens \<rparr>
                        | None \<Rightarrow> st\<lparr> last_text_tokens := tokens \<rparr>)))"

definition parse_stdout :: "string \<Rightarrow> parse_state" where
  "parse_stdout out =
     (let st = fold parse_line (splitlines out)
                 \<lparr> numeric_rows = [], header_tokens_found = [], last_text_tokens = [] \<rparr>
      in if header_tokens_found st = [] \<and> last_text_tokens st \<noteq> []
         then st\<lparr> header_tokens_found := last_text_tokens st \<rparr> else st)"

text \<open>
  \<open>csv.writer(csvfile).writerow(row)\<close> for each row: the fields joined by commas, each
  line ended by CR LF. A float field is written as its \<open>repr\<close>, which is a parameter.
\<close>

definition csv_text :: "(pyfloat \<Rightarrow> string) \<Rightarrow> pyfloat list list \<Rightarrow> string" where
  "csv_text repr rows = concat (map (\<lambda>row. join '','' (map repr row) @ [CHR 0x0D, CHR 0x0A]) rows)"

text \<open>
  The \<open>try\<close> block of \<open>run_brdfprog\<close>. The deck lines were read from the widgets before
  it. What \<open>render_with_external\<close> adds to the output box is \<open>render_messages\<close>.
\<close>

definition persist_table :: "(pyfloat \<Rightarrow> string) \<Rightarrow> run_env \<Rightarrow> parse_state \<Rightarrow> form_state \<Rightarrow> form_state" where
  "persist_table repr env parsed s =
     (let ts = timestamp env; csv = csv_filename ts
      in if numeric_rows parsed \<noteq> []
         then (case csv_write_error env of
                 Some msg \<Rightarrow> s\<lparr> output_box := [''[Exception] '' @ msg] \<rparr>
               | None \<Rightarrow>
                   (let s = s\<lparr> files := (files s)(csv \<mapsto> csv_text repr (numeric_rows parsed)),
                                output_box := output_box s @ [''Saved CSV: '' @ csv],
                                last_csv_path := Some csv \<rparr>;
                        meta_path = csv @ ''.meta.json'';
                        s = (case meta_write_error env of
                               None \<Rightarrow> s\<lparr> files := (files s)(meta_path \<mapsto> meta_json env),
                                           output_box := output_box s @ [''Saved metadata: '' @ meta_path] \<rparr>
                             | Some msg \<Rightarrow>
                                 s\<lparr> output_box := output_box s
                                                     @ [''[Warn] Could not write metadata: '' @ msg] \<rparr>);
                        s = (if header_tokens_found parsed \<noteq> []
                             then s\<lparr> output_box := output_box s
                                      @ [''Detected header tokens: ''
                                         @ join '', '' (take 8 (header_tokens_found parsed))] \<rparr>
                             else s\<lparr> output_box := output_box s
                                      @ [''No textual header detected; using numeric inference.''] \<rparr>)
                    in s\<lparr> output_box := output_box s @ render_messages env \<rparr>))
         else s\<lparr> output_box := output_box s
                    @ [''No numeric data detected in BRDFProg output; graph not updated.''] \<rparr>)"

definition run_brdfprog :: "(pyfloat \<Rightarrow> string) \<Rightarrow> run_env \<Rightarrow> form_state \<Rightarrow> form_state" where
  "run_brdfprog repr env s =
     (let ts = timestamp env
      in case outcome env of
           InputWriteFailed msg \<Rightarrow> s\<lparr> output_box := [''[Exception] '' @ msg] \<rparr>
         | ExeNotFound \<Rightarrow>
             s\<lparr> files := (files s)(input_filename ts \<mapsto> join ''\<newline>'' (input_lines env)),
                output_box := [''[Error] 'brdfprog' not found. Ensure it is on PATH or next to the app.\<newline>''
                               @ ''Current PATH includes: '' @ scatmech_bin env] \<rparr>
         | LaunchFailed exe msg \<Rightarrow>
             s\<lparr> files := (files s)(input_filename ts \<mapsto> join ''\<newline>'' (input_lines env)),
                last_input_path := Some (input_filename ts),
                output_box := [''[Error] Could not invoke brdfprog: '' @ msg] \<rparr>
         | Exited exe returncode out err \<Rightarrow>
             (let s = s\<lparr> files := (files s)(input_filename ts \<mapsto> join ''\<newline>'' (input_lines env)),
                          last_input_path := Some (input_filename ts),
                          output_box := [''Saved input deck: '' @ input_filename ts
                                         @ ''\<newline>Running BRDFProg: '' @ exe] \<rparr>
              in if returncode \<noteq> 0
                 then s\<lparr> output_box := [''[Error] brdfprog failed:\<newline>'' @ err] \<rparr>
                 else (case stdout_write_error env of
                         Some msg \<Rightarrow> s\<lparr> output_box := [''[Exception] '' @ msg] \<rparr>
                       | None \<Rightarrow>
                           persist_table repr env (parse_stdout out)
                             (s\<lparr> files := (files s)(output_filename ts \<mapsto> out),
                                 last_stdout_path := Some (output_filename ts),
                                 output_box := output_box s
                                   @ [''brdfprog completed. Parsing output table'' @ [CHR 0xE2, CHR 0x80, CHR 0xA6]] \<rparr>))))"

section \<open>The properties, in the specification's words\<close>

text \<open>
  A data line of the specification: not blank, not a comment, with at least one token,
  every token a floating-point number once \<open>D\<close> and \<open>d\<close> are read as \<open>E\<close>.
\<close>

definition token_ok :: "string \<Rightarrow> bool" where
  "token_ok tok = (py_float (cleaned tok) \<noteq> None)"

definition spec_numeric_line :: "string \<Rightarrow> bool" where
  "spec_numeric_line raw =
     (let line = strip raw
      in line \<noteq> [] \<and> \<not> startswith line ''#'' \<and> tokenize line \<noteq> []
         \<and> list_all token_ok (tokenize line))"

definition spec_line_values :: "string \<Rightarrow> pyfloat list" where
  "spec_line_values raw = map (\<lambda>tok. the (py_float (cleaned tok))) (tokenize (strip raw))"

text \<open>The invariant of a numeric table: no infinite cell, no row of missing cells only.\<close>

definition cell_ok :: "pyfloat \<Rightarrow> bool" where
  "cell_ok v = (isfinite v \<or> isnan v)"

definition numeric_table_invariant :: "pyfloat list list \<Rightarrow> bool" where
  "numeric_table_invariant table =
     list_all (\<lambda>row. list_all cell_ok row \<and> list_ex (\<lambda>v. \<not> isnan v) row) table"

text \<open>
  The role assignment of one render call: the axis column and the ordered measurement
  columns; and the header tokens the call reads from the metadata.
\<close>

definition infer_roles :: "plot_args \<Rightarrow> pyfloat list list \<Rightarrow> nat \<times> nat list" where
  "infer_roles args data =
     (let x_idx = select_x_column args data in (x_idx, select_measure_columns args data x_idx))"

definition header_tokens_of :: "plot_args \<Rightarrow> string list" where
  "header_tokens_of args = (case meta args of None \<Rightarrow> [] | Some m \<Rightarrow> header_tokens m)"

text \<open>A column whose lower-cased header name contains a geometry keyword.\<close>

definition geometry_column :: "plot_args \<Rightarrow> pyfloat list list \<Rightarrow> nat \<Rightarrow> bool" where
  "geometry_column args data idx =
     list_ex (contains (header_lower_of args (ncols_of data) ! idx)) geometry_keys"

text \<open>
  A column that repeats the axis: on the rows where both are finite its values equal
  the axis values exactly.
\<close>

definition duplicates_axis :: "pyfloat list list \<Rightarrow> nat \<Rightarrow> nat \<Rightarrow> bool" where
  "duplicates_axis data x_idx idx =
     list_all (\<lambda>(x, v). v = x) (shared_rows (column data x_idx) (column data idx))"

text \<open>The share of strictly positive values among all finite values of a column.\<close>

definition spec_positive_share :: "pyfloat list \<Rightarrow> real" where
  "spec_positive_share col = frac (\<lambda>v. v > 0) (finite_values col)"

text \<open>The closeness term of a column's score: its observed range against the hint.\<close>

definition column_closeness :: "(real \<times> real) option \<Rightarrow> pyfloat list \<Rightarrow> real" where
  "column_closeness expected col =
     closeness expected (Min (set (finite_values col))) (Max (set (finite_values col)))"

section \<open>The loader: shape of the table and its invariant\<close>

lemma parse_tokens_eq:
  "parse_tokens toks =
     (if list_all token_ok toks then Some (map (\<lambda>tok. the (py_float (cleaned tok))) toks)
      else None)"
  by (induction toks) (auto simp: token_ok_def split: option.splits)

lemma line_row_eq:
  "line_row raw = (if spec_numeric_line raw then Some (spec_line_values raw) else None)"
  by (auto simp: line_row_def spec_numeric_line_def spec_line_values_def Let_def parse_tokens_eq)

lemma collect_rows_eq:
  "collect_rows ls = map spec_line_values (filter spec_numeric_line ls)"
  by (induction ls) (auto simp: line_row_eq)

lemma max_len_eq: "rows \<noteq> [] \<Longrightarrow> max_len rows = Max (set (map length rows))"
proof -
  assume ne: "rows \<noteq> []"
  have "fold max (map length rows) 0 = Max (set (0 # map length rows))"
    by (simp only: Max.set_eq_fold)
  also have "\<dots> = Max (set (map length rows))"
    using ne by (cases rows) (auto simp: max_def)
  finally show ?thesis by (simp add: max_len_def)
qed

lemma length_le_max_len: "r \<in> set rows \<Longrightarrow> length r \<le> max_len rows"
proof -
  assume r: "r \<in> set rows"
  then have ne: "rows \<noteq> []" by auto
  show ?thesis using r by (simp add: max_len_eq[OF ne])
qed

text \<open>
  C5. For every input text the loader's table has one row per data line and as many
  columns as the longest data line has tokens; row \<open>i\<close> holds the values of the
  tokens of the \<open>i\<close>-th data line, in order, followed by missing markers up to that
  width, so that no data line and no token is dropped. Without a data line the loader
  fails with an error.
\<close>

theorem loader_table_shape:
  fixes contents :: string
  defines "ls \<equiv> filter spec_numeric_line (file_lines contents)"
  defines "width \<equiv> Max (set (map (\<lambda>raw. length (tokenize (strip raw))) ls))"
  shows "(ls = [] \<longrightarrow>
            load_numeric_table (Some contents) =
              Inl (ValueError ''No numeric rows detected in BRDF output.''))
       \<and> (ls \<noteq> [] \<longrightarrow>
            (\<exists>table. load_numeric_table (Some contents) = Inr table
               \<and> length table = length ls
               \<and> (\<forall>i < length ls.
                     table ! i = spec_line_values (ls ! i)
                        @ replicate (width - length (tokenize (strip (ls ! i)))) NaN
                   \<and> length (table ! i) = width)))"
proof (intro conjI impI)
  assume "ls = []"
  then show "load_numeric_table (Some contents) =
              Inl (ValueError ''No numeric rows detected in BRDF output.'')"
    by (simp add: load_numeric_table_def collect_rows_eq ls_def)
next
  assume ne: "ls \<noteq> []"
  let ?rows = "map spec_line_values ls"
  have rows: "collect_rows (file_lines contents) = ?rows"
    by (simp add: collect_rows_eq ls_def)
  have rne: "?rows \<noteq> []" using ne by simp
  have len: "map length ?rows = map (\<lambda>raw. length (tokenize (strip raw))) ls"
    by (simp add: spec_line_values_def)
  have w: "max_len ?rows = width"
    unfolding max_len_eq[OF rne] width_def len ..
  define table where "table = map (pad_row width) ?rows"
  have load: "load_numeric_table (Some contents) = Inr table"
    using rne by (simp add: load_numeric_table_def rows w Let_def table_def)
  have len_table: "length table = length ls"
    by (simp add: table_def)
  have cells: "\<forall>i < length ls.
          table ! i = spec_line_values (ls ! i)
             @ replicate (width - length (tokenize (strip (ls ! i)))) NaN
        \<and> length (table ! i) = width"
  proof (intro allI impI)
    fix i assume i: "i < length ls"
    have "spec_line_values (ls ! i) \<in> set ?rows" using i by simp
    from length_le_max_len[OF this] have "length (spec_line_values (ls ! i)) \<le> width"
      by (simp only: w)
    then show "table ! i = spec_line_values (ls ! i)
             @ replicate (width - length (tokenize (strip (ls ! i)))) NaN
        \<and> length (table ! i) = width"
      using i by (simp add: pad_row_def spec_line_values_def table_def)
  qed
  from load len_table cells
  show "\<exists>table. load_numeric_table (Some contents) = Inr table
               \<and> length table = length ls
               \<and> (\<forall>i < length ls.
                     table ! i = spec_line_values (ls ! i)
                        @ replicate (width - length (tokenize (strip (ls ! i)))) NaN
                   \<and> length (table ! i) = width)"
    by blast
qed

theorem loader_table_shape_witness:
  "\<exists>table. load_numeric_table (Some ''# comment\<newline>Theta S11\<newline>10 1.0\<newline>20,2.0D0,3\<newline>,,\<newline>'') = Inr table
     \<and> length table = 2
     \<and> table ! 0 = [Fin 10, Fin 1, NaN]
     \<and> table ! 1 = [Fin 20, Fin 2, Fin 3]
     \<and> length (table ! 0) = 3"
proof -
  let ?contents = "''# comment\<newline>Theta S11\<newline>10 1.0\<newline>20,2.0D0,3\<newline>,,\<newline>''"
  have ls: "filter spec_numeric_line (file_lines ?contents) = [''10 1.0'', ''20,2.0D0,3'']"
    by code_simp
  have v0: "spec_line_values ''10 1.0'' = [Fin 10, Fin 1]"
    by code_simp
  have v1: "spec_line_values ''20,2.0D0,3'' = [Fin 20, Fin 2, Fin 3]"
    by code_simp
  have t0: "tokenize (strip ''10 1.0'') = [''10'', ''1.0'']"
    by code_simp
  have t1: "tokenize (strip ''20,2.0D0,3'') = [''20'', ''2.0D0'', ''3'']"
    by code_simp
  have ne: "[''10 1.0'', ''20,2.0D0,3''] \<noteq> []"
    by simp
  from loader_table_shape[of ?contents, unfolded ls] ne
  obtain table where load: "load_numeric_table (Some ?contents) = Inr table"
    and len: "length table = length [''10 1.0'', ''20,2.0D0,3'']"
    and cells: "\<forall>i < length [''10 1.0'', ''20,2.0D0,3''].
        table ! i = spec_line_values ([''10 1.0'', ''20,2.0D0,3''] ! i)
           @ replicate (Max (set (map (\<lambda>raw. length (tokenize (strip raw))) [''10 1.0'', ''20,2.0D0,3'']))
                        - length (tokenize (strip ([''10 1.0'', ''20,2.0D0,3''] ! i)))) NaN
      \<and> length (table ! i) = Max (set (map (\<lambda>raw. length (tokenize (strip raw))) [''10 1.0'', ''20,2.0D0,3'']))"
    by blast
  have c0: "table ! 0 = [Fin 10, Fin 1, NaN] \<and> length (table ! 0) = 3"
    using cells[rule_format, of 0] by (simp add: v0 t0 t1)
  have c1: "table ! 1 = [Fin 20, Fin 2, Fin 3]"
    using cells[rule_format, of 1] by (simp add: v1 t0 t1)
  from len have len: "length table = 2" by simp
  from load len c0 c1 show ?thesis by blast
qed

lemma load_numeric_table_rows:
  assumes "load_numeric_table (Some contents) = Inr table"
  shows "table = map (pad_row (max_len (collect_rows (file_lines contents))))
                     (collect_rows (file_lines contents))
         \<and> collect_rows (file_lines contents) \<noteq> []"
  using assms by (auto simp: load_numeric_table_def Let_def split: if_splits)

lemma pad_row_invariant:
  assumes "list_all isfinite row" and "row \<noteq> []"
  shows "list_all cell_ok (pad_row w row) \<and> list_ex (\<lambda>v. \<not> isnan v) (pad_row w row)"
proof -
  from assms obtain v vs where row: "row = v # vs" by (cases row) auto
  with assms(1) have "isfinite v" by simp
  then have nn: "\<not> isnan v" by (cases v) auto
  have "list_all cell_ok row"
    using assms(1) by (simp add: list_all_iff cell_ok_def)
  moreover have "list_all cell_ok (replicate n NaN)" for n
    by (simp add: list_all_iff cell_ok_def)
  ultimately have "list_all cell_ok (pad_row w row)"
    by (simp add: pad_row_def)
  moreover have "list_ex (\<lambda>v. \<not> isnan v) (pad_row w row)"
    using nn by (simp add: pad_row_def row)
  ultimately show ?thesis by simp
qed

text \<open>
  C6, as the code has it. The loader keeps whatever \<open>float()\<close> returns, so a cell is
  infinite or nan when its token spells one (\<open>inf\<close>, \<open>nan\<close>, an overflowing literal).
  For a text none of whose data lines has such a token, the table satisfies the
  invariant: every cell is finite or missing, and no row is missing throughout.
\<close>

theorem loader_invariant_finite_tokens:
  assumes load: "load_numeric_table (Some contents) = Inr table"
    and fin: "\<forall>raw \<in> set (file_lines contents).
                spec_numeric_line raw \<longrightarrow> list_all isfinite (spec_line_values raw)"
  shows "numeric_table_invariant table"
proof -
  let ?ls = "filter spec_numeric_line (file_lines contents)"
  let ?w = "max_len (collect_rows (file_lines contents))"
  from load_numeric_table_rows[OF load]
  have table: "table = map (pad_row ?w) (map spec_line_values ?ls)"
    by (simp add: collect_rows_eq)
  have "list_all cell_ok (pad_row ?w (spec_line_values raw))
        \<and> list_ex (\<lambda>v. \<not> isnan v) (pad_row ?w (spec_line_values raw))"
    if "raw \<in> set ?ls" for raw
  proof (rule pad_row_invariant)
    from that fin show "list_all isfinite (spec_line_values raw)" by simp
    from that have "tokenize (strip raw) \<noteq> []"
      by (simp add: spec_numeric_line_def Let_def)
    then show "spec_line_values raw \<noteq> []"
      by (simp add: spec_line_values_def)
  qed
  then show ?thesis
    unfolding numeric_table_invariant_def table
    by (simp add: list_all_iff)
qed

theorem loader_invariant_finite_tokens_witness:
  "load_numeric_table (Some ''10 1.0\<newline>20,2.0D0,3\<newline>'') = Inr [[Fin 10, Fin 1, NaN], [Fin 20, Fin 2, Fin 3]]
   \<and> numeric_table_invariant [[Fin 10, Fin 1, NaN], [Fin 20, Fin 2, Fin 3]]"
proof -
  let ?contents = "''10 1.0\<newline>20,2.0D0,3\<newline>''"
  have load: "load_numeric_table (Some ?contents) = Inr [[Fin 10, Fin 1, NaN], [Fin 20, Fin 2, Fin 3]]"
    by code_simp
  have lines: "file_lines ?contents = [''10 1.0'', ''20,2.0D0,3'']"
    by code_simp
  have v0: "spec_line_values ''10 1.0'' = [Fin 10, Fin 1]"
    by code_simp
  have v1: "spec_line_values ''20,2.0D0,3'' = [Fin 20, Fin 2, Fin 3]"
    by code_simp
  have fin: "\<forall>raw \<in> set (file_lines ?contents).
                spec_numeric_line raw \<longrightarrow> list_all isfinite (spec_line_values raw)"
    unfolding lines by (simp add: v0 v1)
  from loader_invariant_finite_tokens[OF load fin] load show ?thesis by simp
qed

text \<open>
  C6, as the specification states it, fails: the text \<open>1 inf\<close>, \<open>nan\<close> is accepted and
  gives a table with an infinite cell and a second row that is missing throughout.
\<close>

theorem loader_invariant_counterexample:
  "load_numeric_table (Some ''1 inf\<newline>nan'') = Inr [[Fin 1, PInf], [NaN, NaN]]
   \<and> \<not> numeric_table_invariant [[Fin 1, PInf], [NaN, NaN]]"
  by code_simp

section \<open>Measurement columns, the single-column table, determinism\<close>

lemma set_insert_desc: "set (insert_desc x ys) = insert x (set ys)"
  by (induction ys) auto

lemma set_sort_desc: "set (sort_desc xs) = set xs"
  unfolding sort_desc_def by (induction xs) (simp_all add: set_insert_desc)

lemma set_map_filter_eq: "set (List.map_filter f xs) = {y. \<exists>x \<in> set xs. f x = Some y}"
  by (induction xs) (auto simp: List.map_filter_def)

lemma measure_candidate_fst:
  "measure_candidate hl data x_idx idx = Some (i, k) \<Longrightarrow> i = idx"
  by (auto simp: measure_candidate_def Let_def split: if_splits)

lemma measure_candidates_mem:
  "(i, k) \<in> set (measure_candidates hl data x_idx) \<longleftrightarrow>
     i < ncols_of data \<and> measure_candidate hl data x_idx i = Some (i, k)"
  by (auto simp: measure_candidates_def set_map_filter_eq dest: measure_candidate_fst)

lemma measure_fallback_mem:
  "(i, k) \<in> set (measure_fallback data x_idx) \<Longrightarrow> i \<noteq> x_idx"
  by (auto simp: measure_fallback_def Let_def split: if_splits)

lemma select_measure_columns_auto:
  assumes "y_col args = None"
  shows "set (select_measure_columns args data x_idx) =
           fst ` set (if measure_candidates (header_lower_of args (ncols_of data)) data x_idx = []
                      then measure_fallback data x_idx
                      else measure_candidates (header_lower_of args (ncols_of data)) data x_idx)"
  using assms by (simp add: select_measure_columns_def Let_def set_sort_desc)

lemma keep_best_first: "keep_best f 0 None = Some (a, b) \<Longrightarrow> a = 0"
  by (auto simp: keep_best_def split: option.splits)

lemma select_x_column_single:
  assumes "ncols_of data = 1"
  shows "select_x_column args data = 0"
  using assms
  by (auto simp: select_x_column_def Let_def split: option.splits dest: keep_best_first)

text \<open>
  C10. Without a measurement override the selected measurement columns never contain
  the axis column; and for a table of exactly one column \<open>plot_csv\<close> fails with the
  no-measurement-columns error, whatever the axis override.
\<close>

theorem single_column_no_measurement:
  "(y_col args = None \<longrightarrow> x_idx \<notin> set (select_measure_columns args data x_idx))
   \<and> (y_col args = None \<longrightarrow> load_numeric_table csv_file = Inr data \<longrightarrow> ncols_of data = 1 \<longrightarrow>
        plot_csv args csv_file = Inl (ValueError ''No measurement columns available for plotting.''))"
proof (intro conjI impI)
  assume y: "y_col args = None"
  show "x_idx \<notin> set (select_measure_columns args data x_idx)"
  proof
    assume "x_idx \<in> set (select_measure_columns args data x_idx)"
    then obtain k where
      "(x_idx, k) \<in> set (if measure_candidates (header_lower_of args (ncols_of data)) data x_idx = []
                      then measure_fallback data x_idx
                      else measure_candidates (header_lower_of args (ncols_of data)) data x_idx)"
      unfolding select_measure_columns_auto[OF y] by force
    then show False
      by (auto simp: measure_candidates_mem measure_candidate_def dest: measure_fallback_mem
               split: if_splits)
  qed
next
  assume y: "y_col args = None" and load: "load_numeric_table csv_file = Inr data"
    and one: "ncols_of data = 1"
  have x: "select_x_column args data = 0"
    by (rule select_x_column_single[OF one])
  have "measure_candidates hl data 0 = []" for hl
    by (simp add: measure_candidates_def one List.map_filter_def measure_candidate_def)
  moreover have "measure_fallback data 0 = []"
    by (simp add: measure_fallback_def one)
  ultimately have "select_measure_columns args data 0 = []"
    using y by (simp add: select_measure_columns_def Let_def sort_desc_def)
  then show "plot_csv args csv_file = Inl (ValueError ''No measurement columns available for plotting.'')"
    by (simp add: plot_csv_def load x Let_def)
qed

text \<open>The equations that unfold the measurement selection on a concrete table.\<close>

lemmas measure_eval =
  select_measure_columns_def ncols_of_def header_lower_of_def measure_candidates_def
  measure_candidate_def column_def allclose_def List.map_filter_def measure_fallback_def
  sort_desc_def geometry_keys_def lower_def strip_def to_lower_def is_space_def

theorem single_column_no_measurement_witness:
  "plot_csv \<lparr> x_col = Some 5, y_col = None, semilogy = True, meta = None \<rparr> (Some ''1\<newline>2\<newline>3\<newline>'')
     = Inl (ValueError ''No measurement columns available for plotting.'')
   \<and> 0 \<notin> set (select_measure_columns \<lparr> x_col = Some 5, y_col = None, semilogy = True, meta = None \<rparr>
                   [[Fin 1, Fin 4], [Fin 2, Fin 5], [Fin 3, Fin 7]] 0)"
proof -
  let ?args = "\<lparr> x_col = Some 5, y_col = None, semilogy = True, meta = None \<rparr>"
  have load: "load_numeric_table (Some ''1\<newline>2\<newline>3\<newline>'') = Inr [[Fin 1], [Fin 2], [Fin 3]]"
    by code_simp
  have one: "ncols_of [[Fin 1], [Fin 2], [Fin 3]] = 1"
    by (simp add: ncols_of_def)
  have y: "y_col ?args = None"
    by simp
  have a: "0 \<notin> set (select_measure_columns ?args [[Fin 1, Fin 4], [Fin 2, Fin 5], [Fin 3, Fin 7]] 0)"
    using single_column_no_measurement[where args = ?args and x_idx = 0
         and data = "[[Fin 1, Fin 4], [Fin 2, Fin 5], [Fin 3, Fin 7]]"] y by blast
  have b: "plot_csv ?args (Some ''1\<newline>2\<newline>3\<newline>'')
             = Inl (ValueError ''No measurement columns available for plotting.'')"
    using single_column_no_measurement[where args = ?args
         and data = "[[Fin 1], [Fin 2], [Fin 3]]"
         and csv_file = "Some ''1\<newline>2\<newline>3\<newline>''"] y load one by blast
  from a b show ?thesis by blast
qed

lemma measure_candidate_not_geometry:
  assumes "measure_candidate hl data x_idx idx = Some c"
  shows "\<not> list_ex (contains (hl ! idx)) geometry_keys"
proof (cases "hl ! idx = []")
  case True
  then show ?thesis by (simp add: geometry_keys_def)
next
  case False
  with assms show ?thesis
    by (auto simp: measure_candidate_def Let_def split: if_splits)
qed

lemma measure_candidate_not_close:
  assumes "measure_candidate hl data x_idx idx = Some c"
  shows "\<not> allclose (shared_rows (column data x_idx) (column data idx))"
  using assms by (auto simp: measure_candidate_def Let_def split: if_splits)

lemma duplicates_allclose:
  "duplicates_axis data x_idx idx \<Longrightarrow> allclose (shared_rows (column data x_idx) (column data idx))"
  by (auto simp: duplicates_axis_def allclose_def list_all_iff)

text \<open>
  C2, as the code has it. When at least one column survives the exclusions, no selected
  measurement column has a geometry keyword in its header name. When none survives,
  the fallback column is returned without a look at its header.
\<close>

theorem geometry_columns_excluded:
  assumes "y_col args = None"
    and "measure_candidates (header_lower_of args (ncols_of data)) data x_idx \<noteq> []"
  shows "\<forall>idx \<in> set (select_measure_columns args data x_idx). \<not> geometry_column args data idx"
proof
  fix idx assume "idx \<in> set (select_measure_columns args data x_idx)"
  with assms obtain k where
    "(idx, k) \<in> set (measure_candidates (header_lower_of args (ncols_of data)) data x_idx)"
    unfolding select_measure_columns_auto[OF assms(1)] by force
  then have "measure_candidate (header_lower_of args (ncols_of data)) data x_idx idx = Some (idx, k)"
    by (simp add: measure_candidates_mem)
  from measure_candidate_not_geometry[OF this]
  show "\<not> geometry_column args data idx"
    by (simp add: geometry_column_def)
qed

lemma far_not_allclose:
  assumes "(x, v) \<in> set pairs" and "1 / 1000 + \<bar>x\<bar> / 10000 \<le> \<bar>v - x\<bar>"
  shows "\<not> allclose pairs"
proof
  assume "allclose pairs"
  with assms(1) have "\<bar>v - x\<bar> \<le> 1 / 10000 + 1 / 100000 * \<bar>x\<bar>"
    by (auto simp: allclose_def list_all_iff)
  with assms(2) show False
    by simp
qed

text \<open>
  C3, as the code has it. A column that equals the axis exactly on the rows they share
  is not selected, provided some column clearly survives the exclusions: a column
  other than the axis with at least two shared rows, a header name without a geometry
  keyword, values spanning at least 1e-6, and one shared row on which it is away from
  the axis by at least ten times the tolerances (1e-3 plus 1e-4 of the axis value).
  When no column survives, the fallback column is returned even if it repeats the
  axis. Nothing is stated for a column that is only within the tolerances of the axis,
  and the surviving column is kept away from the thresholds: at their edge the tests
  are decided by binary64 rounding, which is not modelled.
\<close>

theorem axis_duplicates_excluded:
  assumes y: "y_col args = None"
    and j: "j < ncols_of data"
    and jx: "j \<noteq> x_idx"
    and rows: "2 \<le> length (shared_rows (column data x_idx) (column data j))"
    and far: "\<exists>(x, v) \<in> set (shared_rows (column data x_idx) (column data j)).
                1 / 1000 + \<bar>x\<bar> / 10000 \<le> \<bar>v - x\<bar>"
    and spread: "1 / 1000000 \<le> Max (set (map snd (shared_rows (column data x_idx) (column data j))))
                               - Min (set (map snd (shared_rows (column data x_idx) (column data j))))"
    and name: "\<not> geometry_column args data j"
    and dup: "duplicates_axis data x_idx idx"
  shows "idx \<notin> set (select_measure_columns args data x_idx)"
proof
  let ?hl = "header_lower_of args (ncols_of data)"
  let ?pairs = "shared_rows (column data x_idx) (column data j)"
  assume sel: "idx \<in> set (select_measure_columns args data x_idx)"
  from far obtain x v where "(x, v) \<in> set ?pairs" and "1 / 1000 + \<bar>x\<bar> / 10000 \<le> \<bar>v - x\<bar>"
    by auto
  then have far': "\<not> allclose ?pairs"
    by (rule far_not_allclose)
  have wide: "\<not> Max (set (map snd ?pairs)) - Min (set (map snd ?pairs)) < 1 / 10 ^ 12"
    using spread by simp
  have "measure_candidate ?hl data x_idx j = Some (j, Fin (nanstd (map snd ?pairs)))"
    using jx rows far' wide name
    by (simp add: measure_candidate_def Let_def geometry_column_def)
  with j have ne: "measure_candidates ?hl data x_idx \<noteq> []"
    using measure_candidates_mem[of j "Fin (nanstd (map snd ?pairs))" ?hl data x_idx] by auto
  with sel obtain k where "(idx, k) \<in> set (measure_candidates ?hl data x_idx)"
    unfolding select_measure_columns_auto[OF y] by force
  then have "measure_candidate ?hl data x_idx idx = Some (idx, k)"
    by (simp add: measure_candidates_mem)
  from measure_candidate_not_close[OF this] duplicates_allclose[OF dup] show False
    by simp
qed

lemma header_lower_of_cong:
  "header_tokens_of a = header_tokens_of b \<Longrightarrow> header_lower_of a n = header_lower_of b n"
  by (simp add: header_lower_of_def header_tokens_of_def)

text \<open>
  C8. The role assignment is a function of the table, the header tokens, the
  expected-range hint and the two overrides: two calls that agree on these return the
  same axis column and the same ordered list of measurement columns.
\<close>

theorem role_inference_deterministic:
  assumes "x_col a = x_col b" and "y_col a = y_col b"
    and "header_tokens_of a = header_tokens_of b"
    and "expected_range a = expected_range b"
  shows "infer_roles a data = infer_roles b data"
proof -
  have hl: "header_lower_of a n = header_lower_of b n" for n
    by (rule header_lower_of_cong[OF assms(3)])
  have x: "select_x_column a data = select_x_column b data"
    unfolding select_x_column_def hl assms(1) assms(4) by (rule refl)
  have "select_measure_columns a data i = select_measure_columns b data i" for i
    unfolding select_measure_columns_def hl assms(2) by (rule refl)
  with x show ?thesis
    by (simp add: infer_roles_def)
qed

theorem geometry_columns_excluded_witness:
  "measure_candidates
     (header_lower_of \<lparr> x_col = None, y_col = None, semilogy = True,
          meta = Some \<lparr> header_tokens = [''Theta_r'', ''Phi'', ''S11''],
                        scatter_start = None, scatter_end = None \<rparr> \<rparr> 3)
     [[Fin 1, Fin 5, Fin 9], [Fin 2, Fin 7, Fin 8], [Fin 3, Fin 6, Fin 5]] 0 \<noteq> []
   \<and> list_all (\<lambda>idx. \<not> geometry_column \<lparr> x_col = None, y_col = None, semilogy = True,
          meta = Some \<lparr> header_tokens = [''Theta_r'', ''Phi'', ''S11''],
                        scatter_start = None, scatter_end = None \<rparr> \<rparr>
          [[Fin 1, Fin 5, Fin 9], [Fin 2, Fin 7, Fin 8], [Fin 3, Fin 6, Fin 5]] idx)
        (select_measure_columns \<lparr> x_col = None, y_col = None, semilogy = True,
          meta = Some \<lparr> header_tokens = [''Theta_r'', ''Phi'', ''S11''],
                        scatter_start = None, scatter_end = None \<rparr> \<rparr>
          [[Fin 1, Fin 5, Fin 9], [Fin 2, Fin 7, Fin 8], [Fin 3, Fin 6, Fin 5]] 0)"
proof -
  let ?args = "\<lparr> x_col = None, y_col = None, semilogy = True,
          meta = Some \<lparr> header_tokens = [''Theta_r'', ''Phi'', ''S11''],
                        scatter_start = None, scatter_end = None \<rparr> \<rparr>"
  let ?data = "[[Fin 1, Fin 5, Fin 9], [Fin 2, Fin 7, Fin 8], [Fin 3, Fin 6, Fin 5]]"
  have n: "ncols_of ?data = 3"
    by (simp add: ncols_of_def)
  have c: "measure_candidates (header_lower_of ?args 3) ?data 0 \<noteq> []"
    by (simp add: measure_eval upt_rec[of 0] upt_rec[of 1] upt_rec[of 2] upt_rec[of 3])
  have y: "y_col ?args = None"
    by simp
  from geometry_columns_excluded[of ?args ?data 0] y c n
  have "\<forall>idx \<in> set (select_measure_columns ?args ?data 0). \<not> geometry_column ?args ?data idx"
    by simp
  with c show ?thesis
    by (simp add: list_all_iff)
qed

text \<open>
  C2, as stated, fails: with the headers \<open>Theta_r\<close> and \<open>Phi\<close> the only non-axis
  column is excluded for its keyword, no candidate is left, and the fallback returns
  that very column.
\<close>

theorem geometry_columns_counterexample:
  "load_numeric_table (Some ''1 5\<newline>2 7\<newline>3 6\<newline>'') = Inr [[Fin 1, Fin 5], [Fin 2, Fin 7], [Fin 3, Fin 6]]
   \<and> select_x_column \<lparr> x_col = None, y_col = None, semilogy = True,
          meta = Some \<lparr> header_tokens = [''Theta_r'', ''Phi''],
                        scatter_start = None, scatter_end = None \<rparr> \<rparr>
        [[Fin 1, Fin 5], [Fin 2, Fin 7], [Fin 3, Fin 6]] = 0
   \<and> select_measure_columns \<lparr> x_col = None, y_col = None, semilogy = True,
          meta = Some \<lparr> header_tokens = [''Theta_r'', ''Phi''],
                        scatter_start = None, scatter_end = None \<rparr> \<rparr>
        [[Fin 1, Fin 5], [Fin 2, Fin 7], [Fin 3, Fin 6]] 0 = [1]
   \<and> geometry_column \<lparr> x_col = None, y_col = None, semilogy = True,
          meta = Some \<lparr> header_tokens = [''Theta_r'', ''Phi''],
                        scatter_start = None, scatter_end = None \<rparr> \<rparr>
        [[Fin 1, Fin 5], [Fin 2, Fin 7], [Fin 3, Fin 6]] 1"
proof -
  let ?args = "\<lparr> x_col = None, y_col = None, semilogy = True,
          meta = Some \<lparr> header_tokens = [''Theta_r'', ''Phi''],
                        scatter_start = None, scatter_end = None \<rparr> \<rparr>"
  let ?data = "[[Fin 1, Fin 5], [Fin 2, Fin 7], [Fin 3, Fin 6]]"
  have load: "load_numeric_table (Some ''1 5\<newline>2 7\<newline>3 6\<newline>'') = Inr ?data"
    by code_simp
  have x: "select_x_column ?args ?data = 0"
    by code_simp
  have m: "select_measure_columns ?args ?data 0 = [1]"
    by (simp add: measure_eval upt_rec[of 0] upt_rec[of 1] upt_rec[of 2])
  have g: "geometry_column ?args ?data 1"
    by code_simp
  from load x m g show ?thesis by blast
qed

theorem axis_duplicates_excluded_witness:
  "duplicates_axis [[Fin 1, Fin 1, Fin 5], [Fin 2, Fin 2, Fin 1], [Fin 3, Fin 3, Fin 2]] 0 1
   \<and> shared_rows (column [[Fin 1, Fin 1, Fin 5], [Fin 2, Fin 2, Fin 1], [Fin 3, Fin 3, Fin 2]] 0)
                  (column [[Fin 1, Fin 1, Fin 5], [Fin 2, Fin 2, Fin 1], [Fin 3, Fin 3, Fin 2]] 2)
       = [(1, 5), (2, 1), (3, 2)]
   \<and> 1 \<notin> set (select_measure_columns \<lparr> x_col = None, y_col = None, semilogy = True, meta = None \<rparr>
                   [[Fin 1, Fin 1, Fin 5], [Fin 2, Fin 2, Fin 1], [Fin 3, Fin 3, Fin 2]] 0)"
proof -
  let ?args = "\<lparr> x_col = None, y_col = None, semilogy = True, meta = None \<rparr>"
  let ?data = "[[Fin 1, Fin 1, Fin 5], [Fin 2, Fin 2, Fin 1], [Fin 3, Fin 3, Fin 2]]"
  have d: "duplicates_axis ?data 0 1"
    by code_simp
  have p: "shared_rows (column ?data 0) (column ?data 2) = [(1, 5), (2, 1), (3, 2)]"
    by (simp add: column_def)
  have y: "y_col ?args = None"
    by simp
  have j: "2 < ncols_of ?data"
    by (simp add: ncols_of_def)
  have jx: "(2::nat) \<noteq> 0"
    by simp
  have rows: "2 \<le> length (shared_rows (column ?data 0) (column ?data 2))"
    unfolding p by simp
  have far: "\<exists>(x, v) \<in> set (shared_rows (column ?data 0) (column ?data 2)).
               1 / 1000 + \<bar>x\<bar> / 10000 \<le> \<bar>v - x\<bar>"
    unfolding p by simp
  have spread: "1 / 1000000 \<le> Max (set (map snd (shared_rows (column ?data 0) (column ?data 2))))
                              - Min (set (map snd (shared_rows (column ?data 0) (column ?data 2))))"
    unfolding p by simp
  have name: "\<not> geometry_column ?args ?data 2"
    by code_simp
  have "1 \<notin> set (select_measure_columns ?args ?data 0)"
    by (rule axis_duplicates_excluded[OF y j jx rows far spread name d])
  with d p show ?thesis by blast
qed

text \<open>
  C3, as stated, fails: in a table of two equal columns the second repeats the axis,
  no candidate is left, and the fallback returns it.
\<close>

theorem axis_duplicates_counterexample:
  "load_numeric_table (Some ''1 1\<newline>2 2\<newline>3 3\<newline>'') = Inr [[Fin 1, Fin 1], [Fin 2, Fin 2], [Fin 3, Fin 3]]
   \<and> select_x_column \<lparr> x_col = None, y_col = None, semilogy = True, meta = None \<rparr>
        [[Fin 1, Fin 1], [Fin 2, Fin 2], [Fin 3, Fin 3]] = 0
   \<and> duplicates_axis [[Fin 1, Fin 1], [Fin 2, Fin 2], [Fin 3, Fin 3]] 0 1
   \<and> select_measure_columns \<lparr> x_col = None, y_col = None, semilogy = True, meta = None \<rparr>
        [[Fin 1, Fin 1], [Fin 2, Fin 2], [Fin 3, Fin 3]] 0 = [1]"
proof -
  let ?args = "\<lparr> x_col = None, y_col = None, semilogy = True, meta = None \<rparr>"
  let ?data = "[[Fin 1, Fin 1], [Fin 2, Fin 2], [Fin 3, Fin 3]]"
  have load: "load_numeric_table (Some ''1 1\<newline>2 2\<newline>3 3\<newline>'') = Inr ?data"
    by code_simp
  have x: "select_x_column ?args ?data = 0"
    by code_simp
  have d: "duplicates_axis ?data 0 1"
    by code_simp
  have m: "select_measure_columns ?args ?data 0 = [1]"
    by (simp add: measure_eval upt_rec[of 0] upt_rec[of 1] upt_rec[of 2])
  from load x d m show ?thesis by blast
qed

theorem role_inference_deterministic_witness:
  "infer_roles \<lparr> x_col = None, y_col = None, semilogy = True,
        meta = Some \<lparr> header_tokens = [''Theta_r'', ''S11''],
                      scatter_start = Some 0, scatter_end = Some 180 \<rparr> \<rparr>
      [[Fin 0, Fin 5], [Fin 90, Fin 7], [Fin 180, Fin 6]]
   = infer_roles \<lparr> x_col = None, y_col = None, semilogy = False,
        meta = Some \<lparr> header_tokens = [''Theta_r'', ''S11''],
                      scatter_start = Some 180, scatter_end = Some 0 \<rparr> \<rparr>
      [[Fin 0, Fin 5], [Fin 90, Fin 7], [Fin 180, Fin 6]]"
  by (rule role_inference_deterministic)
     (simp_all add: header_tokens_of_def expected_range_def)

section \<open>The log-scale decision\<close>

text \<open>
  C4, as the code has it. When \<open>plot_csv\<close> reaches the drawing stage, the y axis is
  logarithmic if and only if semilog is requested and every drawn measurement column
  has a share of at least 70 percent of strictly positive values among its values on
  the rows where the axis value is finite as well; the drawn columns are the selected
  ones that share a row with the axis. Without a semilog request the axis is linear.
\<close>

theorem log_scale_decision:
  assumes load: "load_numeric_table csv_file = Inr data"
    and plot: "plot_csv args csv_file = Inr r"
  shows "(y_scale r = Log \<longleftrightarrow>
            semilogy args \<and> (\<forall>idx \<in> set (series r). 7 / 10 \<le> positive_score data (axis_column r) idx))
       \<and> (\<not> semilogy args \<longrightarrow> y_scale r = Linear)
       \<and> axis_column r = select_x_column args data
       \<and> series r = filter (\<lambda>idx. shared_rows (column data (axis_column r)) (column data idx) \<noteq> [])
                       (select_measure_columns args data (axis_column r))"
proof -
  let ?x = "select_x_column args data"
  let ?valid = "valid_indices_of data ?x (select_measure_columns args data ?x)"
  let ?scores = "map (positive_score data ?x) ?valid"
  from plot have ne: "?valid \<noteq> []"
    and r: "r = \<lparr> axis_column = ?x, series = ?valid,
                  y_scale = (if semilogy args \<and> ?scores \<noteq> [] \<and> Min (set ?scores) \<ge> 7 / 10
                             then Log else Linear) \<rparr>"
    by (auto simp: plot_csv_def load Let_def split: if_splits)
  have fin: "finite (set ?scores)" and nonempty: "set ?scores \<noteq> {}"
    using ne by simp_all
  have "Min (set ?scores) \<ge> 7 / 10 \<longleftrightarrow> (\<forall>idx \<in> set ?valid. 7 / 10 \<le> positive_score data ?x idx)"
    unfolding Min_ge_iff[OF fin nonempty] by simp
  moreover have "?scores \<noteq> []"
    using ne by simp
  ultimately have "(if semilogy args \<and> ?scores \<noteq> [] \<and> Min (set ?scores) \<ge> 7 / 10
                    then Log else Linear) = Log \<longleftrightarrow>
                   semilogy args \<and> (\<forall>idx \<in> set ?valid. 7 / 10 \<le> positive_score data ?x idx)"
    by simp
  moreover have "?valid = filter (\<lambda>idx. shared_rows (column data ?x) (column data idx) \<noteq> [])
                       (select_measure_columns args data ?x)"
    by (simp add: valid_indices_of_def)
  ultimately show ?thesis
    unfolding r by auto
qed

theorem log_scale_decision_witness:
  "plot_csv \<lparr> x_col = None, y_col = None, semilogy = True, meta = None \<rparr>
       (Some ''1 1\<newline>2 2\<newline>3 -3\<newline>4 4\<newline>5 5\<newline>'')
     = Inr \<lparr> axis_column = 0, series = [1], y_scale = Log \<rparr>
   \<and> positive_score [[Fin 1, Fin 1], [Fin 2, Fin 2], [Fin 3, Fin (- 3)], [Fin 4, Fin 4], [Fin 5, Fin 5]] 0 1 = 4 / 5
   \<and> plot_csv \<lparr> x_col = None, y_col = None, semilogy = True, meta = None \<rparr>
       (Some ''1 1\<newline>2 -2\<newline>3 3\<newline>4 -4\<newline>'')
     = Inr \<lparr> axis_column = 0, series = [1], y_scale = Linear \<rparr>
   \<and> positive_score [[Fin 1, Fin 1], [Fin 2, Fin (- 2)], [Fin 3, Fin 3], [Fin 4, Fin (- 4)]] 0 1 = 1 / 2
   \<and> 7 / 10 \<le> positive_score [[Fin 1, Fin 1], [Fin 2, Fin 2], [Fin 3, Fin (- 3)], [Fin 4, Fin 4], [Fin 5, Fin 5]] 0 1
   \<and> \<not> 7 / 10 \<le> positive_score [[Fin 1, Fin 1], [Fin 2, Fin (- 2)], [Fin 3, Fin 3], [Fin 4, Fin (- 4)]] 0 1"
proof -
  let ?args = "\<lparr> x_col = None, y_col = None, semilogy = True, meta = None \<rparr>"
  let ?f80 = "Some ''1 1\<newline>2 2\<newline>3 -3\<newline>4 4\<newline>5 5\<newline>''"
  let ?t80 = "[[Fin 1, Fin 1], [Fin 2, Fin 2], [Fin 3, Fin (- 3)], [Fin 4, Fin 4], [Fin 5, Fin 5]]"
  let ?f50 = "Some ''1 1\<newline>2 -2\<newline>3 3\<newline>4 -4\<newline>''"
  let ?t50 = "[[Fin 1, Fin 1], [Fin 2, Fin (- 2)], [Fin 3, Fin 3], [Fin 4, Fin (- 4)]]"
  have l80: "load_numeric_table ?f80 = Inr ?t80" by code_simp
  have l50: "load_numeric_table ?f50 = Inr ?t50" by code_simp
  have x80: "select_x_column ?args ?t80 = 0" by code_simp
  have x50: "select_x_column ?args ?t50 = 0" by code_simp
  have m80: "select_measure_columns ?args ?t80 0 = [1]"
    by (simp add: measure_eval upt_rec[of 0] upt_rec[of 1] upt_rec[of 2])
  have m50: "select_measure_columns ?args ?t50 0 = [1]"
    by (simp add: measure_eval upt_rec[of 0] upt_rec[of 1] upt_rec[of 2])
  have p80: "positive_score ?t80 0 1 = 4 / 5" by code_simp
  have p50: "positive_score ?t50 0 1 = 1 / 2" by code_simp
  have v80: "valid_indices_of ?t80 0 [1] = [1]" by code_simp
  have v50: "valid_indices_of ?t50 0 [1] = [1]" by code_simp
  have d80: "concat (map (\<lambda>idx. map fst (shared_rows (column ?t80 0) (column ?t80 idx))) [1]) \<noteq> []"
    by code_simp
  have d50: "concat (map (\<lambda>idx. map fst (shared_rows (column ?t50 0) (column ?t50 idx))) [1]) \<noteq> []"
    by code_simp
  have r80: "plot_csv ?args ?f80 = Inr \<lparr> axis_column = 0, series = [1], y_scale = Log \<rparr>"
    using d80 l80 x80 m80 v80 p80 by (simp add: plot_csv_def Let_def)
  have r50: "plot_csv ?args ?f50 = Inr \<lparr> axis_column = 0, series = [1], y_scale = Linear \<rparr>"
    using d50 l50 x50 m50 v50 p50 by (simp add: plot_csv_def Let_def)
  from log_scale_decision[OF l80 r80, THEN conjunct1]
  have w80: "7 / 10 \<le> positive_score ?t80 0 1"
    by simp
  from log_scale_decision[OF l50 r50, THEN conjunct1]
  have w50: "\<not> 7 / 10 \<le> positive_score ?t50 0 1"
    by simp
  from r80 r50 w80 w50 p80 p50 show ?thesis
    by blast
qed

text \<open>
  C4, as stated, fails. In the ragged table below column 1 is the axis and column 0
  the measurement; half of the finite values of column 0 are negative, but they stand
  on rows without an axis value, and the y axis is logarithmic.
\<close>

theorem log_scale_counterexample:
  "plot_csv \<lparr> x_col = None, y_col = None, semilogy = True, meta = None \<rparr>
       (Some ''-1\<newline>-2\<newline>-3\<newline>1 10\<newline>2 20\<newline>3 30\<newline>'')
     = Inr \<lparr> axis_column = 1, series = [0], y_scale = Log \<rparr>
   \<and> load_numeric_table (Some ''-1\<newline>-2\<newline>-3\<newline>1 10\<newline>2 20\<newline>3 30\<newline>'')
     = Inr [[Fin (- 1), NaN], [Fin (- 2), NaN], [Fin (- 3), NaN],
            [Fin 1, Fin 10], [Fin 2, Fin 20], [Fin 3, Fin 30]]
   \<and> spec_positive_share (column [[Fin (- 1), NaN], [Fin (- 2), NaN], [Fin (- 3), NaN],
            [Fin 1, Fin 10], [Fin 2, Fin 20], [Fin 3, Fin 30]] 0) = 1 / 2"
proof -
  let ?args = "\<lparr> x_col = None, y_col = None, semilogy = True, meta = None \<rparr>"
  let ?f = "Some ''-1\<newline>-2\<newline>-3\<newline>1 10\<newline>2 20\<newline>3 30\<newline>''"
  let ?t = "[[Fin (- 1), NaN], [Fin (- 2), NaN], [Fin (- 3), NaN],
            [Fin 1, Fin 10], [Fin 2, Fin 20], [Fin 3, Fin 30]]"
  have l: "load_numeric_table ?f = Inr ?t" by code_simp
  have x: "select_x_column ?args ?t = 1" by code_simp
  have m: "select_measure_columns ?args ?t 1 = [0]"
    by (simp add: measure_eval upt_rec[of 0] upt_rec[of 1] upt_rec[of 2])
  have p: "positive_score ?t 1 0 = 1" by code_simp
  have v: "valid_indices_of ?t 1 [0] = [0]" by code_simp
  have d: "concat (map (\<lambda>idx. map fst (shared_rows (column ?t 1) (column ?t idx))) [0]) \<noteq> []"
    by code_simp
  have s: "spec_positive_share (column ?t 0) = 1 / 2" by code_simp
  have "plot_csv ?args ?f = Inr \<lparr> axis_column = 1, series = [0], y_scale = Log \<rparr>"
    using d l x m v p by (simp add: plot_csv_def Let_def)
  with l s show ?thesis by simp
qed

section \<open>Axis selection\<close>

lemma frac_le_1: "frac P xs \<le> 1"
proof (cases "xs = []")
  case True
  then show ?thesis by (simp add: frac_def)
next
  case False
  have "length (filter P xs) \<le> length xs" by simp
  then have "real (length (filter P xs)) \<le> real (length xs)" by simp
  with False show ?thesis by (simp add: frac_def divide_le_eq_1)
qed

lemma frac_all: "xs \<noteq> [] \<Longrightarrow> \<forall>x \<in> set xs. P x \<Longrightarrow> frac P xs = 1"
  by (simp add: frac_def)

lemma monotonicity_le_1: "monotonicity xs \<le> 1"
  by (simp add: monotonicity_def Let_def frac_le_1)

lemma diff_Cons2: "diff (a # b # xs) = (b - a) # diff (b # xs)"
  by (simp add: diff_def)

lemma diff_strict_sorted: "sorted_wrt (<) ts \<Longrightarrow> \<forall>d \<in> set (diff ts). 0 < d"
proof (induction ts rule: induct_list012)
  case 1
  then show ?case by (simp add: diff_def)
next
  case (2 x)
  then show ?case by (simp add: diff_def)
next
  case (3 x y zs)
  then show ?case by (simp add: diff_Cons2)
qed

lemma diff_nonempty: "2 \<le> length ts \<Longrightarrow> diff ts \<noteq> []"
  by (cases ts; cases "tl ts") (auto simp: diff_def)

lemma monotonicity_strict_sorted:
  assumes "sorted_wrt (<) ts" and "2 \<le> length ts"
  shows "monotonicity ts = 1"
proof -
  have ne: "diff ts \<noteq> []" by (rule diff_nonempty[OF assms(2)])
  have "\<forall>d \<in> set (diff ts). - (1 / 100000000) \<le> d"
    using diff_strict_sorted[OF assms(1)] by fastforce
  then have "frac (\<lambda>d. - (1 / 100000000) \<le> d) (diff ts) = 1"
    by (rule frac_all[OF ne])
  moreover have "frac (\<lambda>d. d \<le> 1 / 100000000) (diff ts) \<le> 1"
    by (rule frac_le_1)
  ultimately show ?thesis
    using ne by (simp add: monotonicity_def Let_def)
qed

lemma Min_strict_sorted:
  fixes ts :: "real list"
  assumes "sorted_wrt (<) ts" and "ts \<noteq> []"
  shows "Min (set ts) = hd ts"
proof -
  from assms(2) obtain a rest where ts: "ts = a # rest" by (cases ts) auto
  with assms(1) have "\<forall>x \<in> set rest. a \<le> x" by auto
  then have "Min (insert a (set rest)) = a"
    by (intro Min_eqI) auto
  then show ?thesis by (simp add: ts)
qed

lemma last_strict_sorted_upper:
  fixes ts :: "real list"
  shows "sorted_wrt (<) ts \<Longrightarrow> x \<in> set ts \<Longrightarrow> x \<le> last ts"
proof (induction ts)
  case Nil
  then show ?case by simp
next
  case (Cons a ts)
  show ?case
  proof (cases "ts = []")
    case True
    with Cons.prems show ?thesis by simp
  next
    case False
    then have l: "last ts \<in> set ts" by simp
    show ?thesis
    proof (cases "x = a")
      case True
      with Cons.prems(1) l have "x < last ts" by simp
      with False show ?thesis by simp
    next
      case xa: False
      with Cons.prems have "x \<in> set ts" and "sorted_wrt (<) ts" by simp_all
      with Cons.IH have "x \<le> last ts" by simp
      with False show ?thesis by simp
    qed
  qed
qed

lemma Max_strict_sorted:
  fixes ts :: "real list"
  assumes "sorted_wrt (<) ts" and "ts \<noteq> []"
  shows "Max (set ts) = last ts"
proof (rule Max_eqI)
  show "finite (set ts)" by simp
  show "last ts \<in> set ts" using assms(2) by simp
  show "y \<le> last ts" if "y \<in> set ts" for y
    using last_strict_sorted_upper[OF assms(1) that] .
qed

lemma finite_values_map_Fin: "finite_values (map Fin ts) = ts"
  by (induction ts) simp_all

lemma keep_best_skip: "f idx = None \<Longrightarrow> keep_best f idx best = best"
  by (simp add: keep_best_def)

lemma keep_best_first_score: "f idx = Some s \<Longrightarrow> keep_best f idx None = Some (idx, s)"
  by (simp add: keep_best_def)

lemma keep_best_compare:
  "f idx = Some s \<Longrightarrow>
   keep_best f idx (Some (b, bs)) = (if s > bs then Some (idx, s) else Some (b, bs))"
  by (simp add: keep_best_def)

lemma fold_keep_best_Suc:
  "fold (keep_best f) [0..<Suc n] None = keep_best f n (fold (keep_best f) [0..<n] None)"
  by simp

lemma fold_keep_best_below:
  assumes "\<forall>j < n. \<forall>t. f j = Some t \<longrightarrow> t < s"
  shows "fold (keep_best f) [0..<n] None = None
         \<or> (\<exists>j t. fold (keep_best f) [0..<n] None = Some (j, t) \<and> t < s)"
  using assms
proof (induction n)
  case 0
  then show ?case by simp
next
  case (Suc n)
  let ?prev = "fold (keep_best f) [0..<n] None"
  from Suc.prems have "\<forall>j < n. \<forall>t. f j = Some t \<longrightarrow> t < s"
    by (auto simp: less_Suc_eq)
  from Suc.IH[OF this]
  have prev: "?prev = None \<or> (\<exists>j t. ?prev = Some (j, t) \<and> t < s)" .
  from Suc.prems have fn: "\<forall>t. f n = Some t \<longrightarrow> t < s"
    by auto
  show ?case
  proof (cases "f n")
    case None
    with prev show ?thesis
      unfolding fold_keep_best_Suc by (simp add: keep_best_skip)
  next
    case (Some t)
    with fn have ts: "t < s" by simp
    from prev show ?thesis
    proof
      assume "?prev = None"
      with Some ts show ?thesis
        unfolding fold_keep_best_Suc by (simp add: keep_best_first_score)
    next
      assume "\<exists>j u. ?prev = Some (j, u) \<and> u < s"
      then obtain j u where "?prev = Some (j, u)" and "u < s" by blast
      with Some ts show ?thesis
        unfolding fold_keep_best_Suc by (simp add: keep_best_compare)
    qed
  qed
qed

lemma fold_keep_best_winner:
  assumes "k < n" and "f k = Some s"
    and "\<forall>j < n. j \<noteq> k \<longrightarrow> (\<forall>t. f j = Some t \<longrightarrow> t < s)"
  shows "fold (keep_best f) [0..<n] None = Some (k, s)"
  using assms
proof (induction n)
  case 0
  then show ?case by simp
next
  case (Suc n)
  let ?prev = "fold (keep_best f) [0..<n] None"
  show ?case
  proof (cases "k = n")
    case True
    from Suc.prems(3) True have "\<forall>j < n. \<forall>t. f j = Some t \<longrightarrow> t < s"
      by (auto simp: less_Suc_eq)
    from fold_keep_best_below[OF this]
    have "?prev = None \<or> (\<exists>j t. ?prev = Some (j, t) \<and> t < s)" .
    with Suc.prems(2) True show ?thesis
      unfolding fold_keep_best_Suc
      by (auto simp: keep_best_first_score keep_best_compare)
  next
    case False
    with Suc.prems(1) have kn: "k < n" by simp
    from Suc.prems(3) have "\<forall>j < n. j \<noteq> k \<longrightarrow> (\<forall>t. f j = Some t \<longrightarrow> t < s)"
      by (auto simp: less_Suc_eq)
    from Suc.IH[OF kn Suc.prems(2) this]
    have ih: "?prev = Some (k, s)" .
    from Suc.prems(3) False have fn: "\<forall>t. f n = Some t \<longrightarrow> t < s"
      by auto
    show ?thesis
    proof (cases "f n")
      case None
      with ih show ?thesis
        unfolding fold_keep_best_Suc by (simp add: keep_best_skip)
    next
      case (Some t)
      with fn have "t < s" by simp
      with ih Some show ?thesis
        unfolding fold_keep_best_Suc by (simp add: keep_best_compare)
    qed
  qed
qed

lemma header_score_values:
  "header_score (lower (strip ''Theta_r'')) = 5 / 2"
  "header_score (lower (strip ''Phi'')) = - 1"
  "header_score (lower (strip ''S11'')) = 0"
  by code_simp+

lemma column_score_bound:
  assumes "column_score expected name col = Some t"
  shows "t \<le> 28 / 10 + header_score name + column_closeness expected col"
proof -
  let ?fv = "finite_values col"
  from assms have t: "t = 18 / 10 * monotonicity ?fv + min ((Max (set ?fv) - Min (set ?fv)) / 180) 1
                        + header_score name + closeness expected (Min (set ?fv)) (Max (set ?fv))"
    by (auto simp: column_score_def Let_def split: if_splits)
  have "18 / 10 * monotonicity ?fv \<le> 18 / 10"
    using monotonicity_le_1[of ?fv] by simp
  moreover have "min ((Max (set ?fv) - Min (set ?fv)) / 180) 1 \<le> 1"
    by simp
  ultimately show ?thesis
    unfolding t column_closeness_def by linarith
qed

lemma header_lower_of_nth:
  assumes "j < length (header_tokens_of args)"
  shows "header_lower_of args n ! j = lower (strip (header_tokens_of args ! j))"
  using assms by (simp add: header_lower_of_def header_tokens_of_def Let_def nth_append)

lemma closeness_no_hint: "column_closeness None col = 0"
  by (simp add: column_closeness_def closeness_def)

lemma column_closeness_le_1: "column_closeness expected col \<le> 1"
proof (cases expected)
  case None
  then show ?thesis by (simp add: column_closeness_def closeness_def)
next
  case (Some range)
  obtain exp_min exp_max where range: "range = (exp_min, exp_max)" by (cases range)
  let ?lo = "Min (set (finite_values col))"
  let ?hi = "Max (set (finite_values col))"
  have "0 < 2 * max (exp_max - exp_min) (1 / 1000000)"
    by (simp add: max_def)
  then have "0 \<le> (\<bar>?lo - exp_min\<bar> + \<bar>?hi - exp_max\<bar>) / (2 * max (exp_max - exp_min) (1 / 1000000))"
    by (intro divide_nonneg_pos) simp_all
  then show ?thesis
    by (simp add: column_closeness_def closeness_def Some range)
qed

text \<open>
  C1, as the code has it. In a table where one column is strictly increasing within
  [0, 180] over at least three rows, spans at least 1 (from 0 to 180, say) and is
  headed \<open>Theta_r\<close>, and every other column is headed \<open>Phi\<close> or \<open>S11\<close>, axis selection
  without an override returns that column, wherever it stands, when no hint is
  supplied, and also with a hint whose bounds lie within [-360, 360] and against which
  the closeness term of the \<open>Theta_r\<close> column is not negative. Under these conditions
  the score of the \<open>Theta_r\<close> column is above 4.3 and every other score is at most 3.8,
  the spread is far from the threshold 1e-6, and nothing overflows: no comparison of
  the selection is close enough to its threshold for rounding to decide it.
\<close>

theorem theta_r_column_selected:
  fixes ts :: "real list"
  assumes xcol: "x_col args = None"
    and k: "k < ncols_of data"
    and col: "column data k = map Fin ts"
    and len: "3 \<le> length ts"
    and inc: "sorted_wrt (<) ts"
    and range: "set ts \<subseteq> {0..180}"
    and spread: "1 \<le> last ts - hd ts"
    and hlen: "length (header_tokens_of args) = ncols_of data"
    and hk: "header_tokens_of args ! k = ''Theta_r''"
    and hothers: "\<forall>j < ncols_of data. j \<noteq> k \<longrightarrow>
                    header_tokens_of args ! j = ''Phi'' \<or> header_tokens_of args ! j = ''S11''"
    and hint: "case expected_range args of
                 None \<Rightarrow> True
               | Some (exp_min, exp_max) \<Rightarrow>
                   - 360 \<le> exp_min \<and> exp_max \<le> 360
                   \<and> 0 \<le> column_closeness (Some (exp_min, exp_max)) (column data k)"
  shows "select_x_column args data = k"
proof -
  let ?n = "ncols_of data"
  let ?e = "expected_range args"
  let ?hl = "header_lower_of args ?n"
  let ?f = "\<lambda>idx. column_score ?e (?hl ! idx) (column data idx)"
  let ?ck = "column_closeness ?e (column data k)"
  let ?sk = "18 / 10 + (last ts - hd ts) / 180 + 5 / 2 + ?ck"
  have ne: "ts \<noteq> []" using len by auto
  have mx: "Max (set ts) = last ts" by (rule Max_strict_sorted[OF inc ne])
  have mn: "Min (set ts) = hd ts" by (rule Min_strict_sorted[OF inc ne])
  have "last ts \<in> set ts" and "hd ts \<in> set ts" using ne by simp_all
  with range have "last ts \<le> 180" and "0 \<le> hd ts" by auto
  then have le180: "(last ts - hd ts) / 180 \<le> 1" by simp
  from spread have pos: "0 < (last ts - hd ts) / 180" by simp
  have mono: "monotonicity ts = 1"
    using len by (intro monotonicity_strict_sorted[OF inc]) simp
  have name_k: "?hl ! k = lower (strip ''Theta_r'')"
    using header_lower_of_nth[of k args ?n] k hlen hk by simp
  have ck: "0 \<le> ?ck"
  proof (cases ?e)
    case None
    then show ?thesis by (simp add: closeness_no_hint)
  next
    case (Some r)
    with hint show ?thesis by (cases r) simp
  qed
  have fk: "?f k = Some ?sk"
  proof -
    have "\<not> length ts < 3" using len by simp
    moreover have "\<not> last ts - hd ts < 1 / 1000000" using spread by simp
    moreover have "min ((last ts - hd ts) / 180) 1 = (last ts - hd ts) / 180"
      using le180 by simp
    ultimately show ?thesis
      by (simp add: column_score_def col finite_values_map_Fin mx mn mono name_k
            header_score_values column_closeness_def Let_def)
  qed
  have others: "\<forall>j < ?n. j \<noteq> k \<longrightarrow> (\<forall>t. ?f j = Some t \<longrightarrow> t < ?sk)"
  proof (intro allI impI)
    fix j t
    assume j: "j < ?n" and jk: "j \<noteq> k" and t: "?f j = Some t"
    from column_score_bound[OF t]
    have b: "t \<le> 28 / 10 + header_score (?hl ! j) + column_closeness ?e (column data j)" .
    have "?hl ! j = lower (strip (header_tokens_of args ! j))"
      using header_lower_of_nth[of j args ?n] j hlen by simp
    with hothers j jk have "header_score (?hl ! j) \<le> 0"
      by (auto simp: header_score_values)
    moreover have "column_closeness ?e (column data j) \<le> 1"
      by (rule column_closeness_le_1)
    ultimately show "t < ?sk"
      using b pos ck by linarith
  qed
  from fold_keep_best_winner[of k ?n ?f ?sk, OF k fk others]
  have "fold (keep_best ?f) [0..<?n] None = Some (k, ?sk)" .
  then show ?thesis
    by (simp add: select_x_column_def xcol Let_def)
qed

theorem theta_r_column_selected_witness:
  "select_x_column \<lparr> x_col = None, y_col = None, semilogy = True,
        meta = Some \<lparr> header_tokens = [''Phi'', ''S11'', ''Theta_r''],
                      scatter_start = Some (- 90), scatter_end = Some 90 \<rparr> \<rparr>
      [[Fin 5, Fin 1, Fin 0], [Fin 7, Fin 2, Fin 90], [Fin 6, Fin 3, Fin 180]] = 2
   \<and> select_x_column \<lparr> x_col = None, y_col = None, semilogy = True,
        meta = Some \<lparr> header_tokens = [''Theta_r'', ''Phi'', ''S11''],
                      scatter_start = None, scatter_end = None \<rparr> \<rparr>
      [[Fin 0, Fin 5, Fin 1], [Fin 90, Fin 7, Fin 2], [Fin 180, Fin 6, Fin 3]] = 0"
proof -
  let ?args = "\<lparr> x_col = None, y_col = None, semilogy = True,
        meta = Some \<lparr> header_tokens = [''Phi'', ''S11'', ''Theta_r''],
                      scatter_start = Some (- 90), scatter_end = Some 90 \<rparr> \<rparr>"
  let ?data = "[[Fin 5, Fin 1, Fin 0], [Fin 7, Fin 2, Fin 90], [Fin 6, Fin 3, Fin 180]]"
  let ?bare = "\<lparr> x_col = None, y_col = None, semilogy = True,
        meta = Some \<lparr> header_tokens = [''Theta_r'', ''Phi'', ''S11''],
                      scatter_start = None, scatter_end = None \<rparr> \<rparr>"
  let ?tbl = "[[Fin 0, Fin 5, Fin 1], [Fin 90, Fin 7, Fin 2], [Fin 180, Fin 6, Fin 3]]"
  have len: "3 \<le> length [0, 90, 180 :: real]" by simp
  have inc: "sorted_wrt (<) [0, 90, 180 :: real]" by simp
  have range: "set [0, 90, 180 :: real] \<subseteq> {0..180}" by simp
  have spread: "1 \<le> last [0, 90, 180 :: real] - hd [0, 90, 180]" by simp
  have n: "ncols_of ?data = 3" by (simp add: ncols_of_def)
  have e: "expected_range ?args = Some (- 90, 90)" by (simp add: expected_range_def)
  have xcol: "x_col ?args = None" by simp
  have k: "2 < ncols_of ?data" by (simp add: n)
  have col: "column ?data 2 = map Fin [0, 90, 180]" by (simp add: column_def)
  have hlen: "length (header_tokens_of ?args) = ncols_of ?data"
    by (simp add: header_tokens_of_def n)
  have hk: "header_tokens_of ?args ! 2 = ''Theta_r''"
    by (simp add: header_tokens_of_def)
  have hothers: "\<forall>j < ncols_of ?data. j \<noteq> 2 \<longrightarrow>
                    header_tokens_of ?args ! j = ''Phi'' \<or> header_tokens_of ?args ! j = ''S11''"
    unfolding n by (auto simp: header_tokens_of_def less_Suc_eq numeral_3_eq_3)
  have c2: "column_closeness (Some (- 90, 90)) (column ?data 2) = 1 / 2" by code_simp
  have hint: "case expected_range ?args of
                 None \<Rightarrow> True
               | Some (exp_min, exp_max) \<Rightarrow>
                   - 360 \<le> exp_min \<and> exp_max \<le> 360
                   \<and> 0 \<le> column_closeness (Some (exp_min, exp_max)) (column ?data 2)"
    unfolding e by (simp add: c2)
  have a: "select_x_column ?args ?data = 2"
    by (rule theta_r_column_selected[OF xcol k col len inc range spread hlen hk hothers hint])
  have n0: "ncols_of ?tbl = 3" by (simp add: ncols_of_def)
  have e0: "expected_range ?bare = None" by (simp add: expected_range_def)
  have xcol0: "x_col ?bare = None" by simp
  have k0: "0 < ncols_of ?tbl" by (simp add: n0)
  have col0: "column ?tbl 0 = map Fin [0, 90, 180]" by (simp add: column_def)
  have hlen0: "length (header_tokens_of ?bare) = ncols_of ?tbl"
    by (simp add: header_tokens_of_def n0)
  have hk0: "header_tokens_of ?bare ! 0 = ''Theta_r''"
    by (simp add: header_tokens_of_def)
  have hothers0: "\<forall>j < ncols_of ?tbl. j \<noteq> 0 \<longrightarrow>
                    header_tokens_of ?bare ! j = ''Phi'' \<or> header_tokens_of ?bare ! j = ''S11''"
    unfolding n0 by (auto simp: header_tokens_of_def less_Suc_eq numeral_3_eq_3)
  have hint0: "case expected_range ?bare of
                 None \<Rightarrow> True
               | Some (exp_min, exp_max) \<Rightarrow>
                   - 360 \<le> exp_min \<and> exp_max \<le> 360
                   \<and> 0 \<le> column_closeness (Some (exp_min, exp_max)) (column ?tbl 0)"
    unfolding e0 by simp
  have b: "select_x_column ?bare ?tbl = 0"
    by (rule theta_r_column_selected[OF xcol0 k0 col0 len inc range spread hlen0 hk0 hothers0 hint0])
  from a b show ?thesis by blast
qed

text \<open>
  C1, as stated, fails when a hint is supplied: with the scan bounds 0 and 20 the
  \<open>Theta_r\<close> column, which runs from 0 to 180, loses 3 for its distance from the hint,
  the \<open>S11\<close> column, which runs from 0 to 20, gains 1, and \<open>S11\<close> is selected.
\<close>

theorem theta_r_column_counterexample:
  "load_numeric_table (Some ''0 0\<newline>90 10\<newline>180 20\<newline>'')
     = Inr [[Fin 0, Fin 0], [Fin 90, Fin 10], [Fin 180, Fin 20]]
   \<and> select_x_column \<lparr> x_col = None, y_col = None, semilogy = True,
        meta = Some \<lparr> header_tokens = [''Theta_r'', ''S11''],
                      scatter_start = Some 0, scatter_end = Some 20 \<rparr> \<rparr>
      [[Fin 0, Fin 0], [Fin 90, Fin 10], [Fin 180, Fin 20]] = 1"
  by code_simp

section \<open>A failed solver run\<close>

lemma csv_not_input: "csv_filename ts \<noteq> input_filename ts"
  by (simp add: csv_filename_def input_filename_def)

text \<open>
  C9. When the child process exits with a non-zero status, the run writes nothing but
  the input deck: the file at the CSV path and every other file are as before,
  \<open>last_csv_path\<close> keeps its value (unset stays unset), and the output box shows the
  standard-error text.
\<close>

theorem nonzero_exit_no_csv:
  assumes "outcome env = Exited exe returncode out err" and "returncode \<noteq> 0"
  shows "last_csv_path (run_brdfprog repr env s) = last_csv_path s
       \<and> files (run_brdfprog repr env s) (csv_filename (timestamp env))
           = files s (csv_filename (timestamp env))
       \<and> (\<forall>path. path \<noteq> input_filename (timestamp env) \<longrightarrow>
             files (run_brdfprog repr env s) path = files s path)
       \<and> output_box (run_brdfprog repr env s) = [''[Error] brdfprog failed:\<newline>'' @ err]"
  using assms by (simp add: run_brdfprog_def Let_def csv_not_input)

theorem nonzero_exit_no_csv_witness:
  "last_csv_path (run_brdfprog (\<lambda>v. ''0.0'')
      \<lparr> timestamp = ''2025-01-01_00-00-00'', input_lines = [''0'', ''-90'', ''90''],
        scatmech_bin = ''bin'', outcome = Exited ''/usr/bin/brdfprog'' 2 ''1 2'' ''bad deck'',
        stdout_write_error = None, csv_write_error = None, meta_write_error = None,
        meta_json = ''{}'', render_messages = [] \<rparr>
      \<lparr> files = Map.empty, last_input_path = None, last_stdout_path = None,
        last_csv_path = Some ''../DATA/brdf_output_old.csv'', output_box = [] \<rparr>)
     = Some ''../DATA/brdf_output_old.csv''
   \<and> files (run_brdfprog (\<lambda>v. ''0.0'')
      \<lparr> timestamp = ''2025-01-01_00-00-00'', input_lines = [''0'', ''-90'', ''90''],
        scatmech_bin = ''bin'', outcome = Exited ''/usr/bin/brdfprog'' 2 ''1 2'' ''bad deck'',
        stdout_write_error = None, csv_write_error = None, meta_write_error = None,
        meta_json = ''{}'', render_messages = [] \<rparr>
      \<lparr> files = Map.empty, last_input_path = None, last_stdout_path = None,
        last_csv_path = Some ''../DATA/brdf_output_old.csv'', output_box = [] \<rparr>)
      ''../DATA/brdf_output_2025-01-01_00-00-00.csv'' = None"
proof -
  let ?env = "\<lparr> timestamp = ''2025-01-01_00-00-00'', input_lines = [''0'', ''-90'', ''90''],
        scatmech_bin = ''bin'', outcome = Exited ''/usr/bin/brdfprog'' 2 ''1 2'' ''bad deck'',
        stdout_write_error = None, csv_write_error = None, meta_write_error = None,
        meta_json = ''{}'', render_messages = [] \<rparr>"
  let ?s = "\<lparr> files = Map.empty, last_input_path = None, last_stdout_path = None,
        last_csv_path = Some ''../DATA/brdf_output_old.csv'', output_box = [] \<rparr>"
  have o: "outcome ?env = Exited ''/usr/bin/brdfprog'' 2 ''1 2'' ''bad deck''" by simp
  have rc: "(2::int) \<noteq> 0" by simp
  from nonzero_exit_no_csv[OF o rc, of "\<lambda>v. ''0.0''" ?s]
  show ?thesis
    by (simp add: csv_filename_def)
qed

text \<open>For contrast: a run that succeeds and finds numeric rows does write the CSV.\<close>

lemma successful_run_writes_csv:
  assumes "outcome env = Exited exe 0 out err"
    and "stdout_write_error env = None" and "csv_write_error env = None"
    and "numeric_rows (parse_stdout out) \<noteq> []"
  shows "files (run_brdfprog repr env s) (csv_filename (timestamp env))
           = Some (csv_text repr (numeric_rows (parse_stdout out)))
       \<and> last_csv_path (run_brdfprog repr env s) = Some (csv_filename (timestamp env))"
  using assms
  by (simp add: run_brdfprog_def persist_table_def Let_def split: option.splits)

section \<open>The CSV file read back\<close>

lemma is_sep_code: "is_sep c \<Longrightarrow> (of_char c :: nat) \<le> 44"
  unfolding is_sep_def is_space_def by (elim disjE; simp) auto

lemma sep_free_marks:
  "\<not> is_sep CHR ''-''" "\<not> is_sep CHR ''+''" "\<not> is_sep CHR ''.''"
  "\<not> is_sep CHR ''e''" "\<not> is_sep CHR ''E''"
  by code_simp+

lemma is_sep_not_digit_or_us:
  assumes "is_digit_or_us c"
  shows "\<not> is_sep c"
proof
  assume "is_sep c"
  then have le: "(of_char c :: nat) \<le> 44" by (rule is_sep_code)
  from assms show False
  proof (unfold is_digit_or_us_def, elim disjE)
    assume "is_digit c"
    with le show False by (simp add: is_digit_def)
  next
    assume "c = CHR ''_''"
    with le show False by simp
  qed
qed

lemma valid_digitpart_chars: "valid_digitpart ds \<Longrightarrow> \<forall>c \<in> set ds. is_digit_or_us c"
proof (induction ds rule: valid_digitpart.induct)
  case 1
  then show ?case by simp
next
  case (2 c)
  then show ?case by (simp add: is_digit_or_us_def)
next
  case (3 c d cs)
  show ?case
  proof (cases "d = CHR ''_''")
    case True
    with 3 show ?thesis by (simp add: is_digit_or_us_def)
  next
    case False
    with 3 show ?thesis by (simp add: is_digit_or_us_def)
  qed
qed

lemma split_sign_chars:
  assumes "split_sign s = (neg, body)" and "\<forall>c \<in> set body. \<not> is_sep c"
  shows "\<forall>c \<in> set s. \<not> is_sep c"
proof (cases s)
  case Nil
  then show ?thesis by simp
next
  case (Cons c cs)
  consider "c = CHR ''-''" | "c \<noteq> CHR ''-''" "c = CHR ''+''" | "c \<noteq> CHR ''-''" "c \<noteq> CHR ''+''"
    by blast
  then show ?thesis
  proof cases
    case 1
    with assms Cons have "body = cs" by (simp add: split_sign_def)
    with assms(2) 1 Cons show ?thesis by (simp add: sep_free_marks)
  next
    case 2
    with assms Cons have "body = cs" by (simp add: split_sign_def)
    with assms(2) 2 Cons show ?thesis by (simp add: sep_free_marks)
  next
    case 3
    with assms Cons have "body = s" by (simp add: split_sign_def)
    with assms(2) show ?thesis by simp
  qed
qed

lemma digitpart_sep_free: "valid_digitpart ds \<Longrightarrow> \<forall>c \<in> set ds. \<not> is_sep c"
  using valid_digitpart_chars is_sep_not_digit_or_us by blast


lemma parse_exponent_chars:
  assumes "parse_exponent s = Some e"
  shows "\<forall>c \<in> set s. \<not> is_sep c"
proof (cases s)
  case Nil
  then show ?thesis by simp
next
  case (Cons c cs)
  obtain neg ds where sd: "split_sign cs = (neg, ds)" by (cases "split_sign cs")
  from assms Cons have c: "c = CHR ''e'' \<or> c = CHR ''E''"
    by (simp add: parse_exponent_def split: if_splits)
  with assms Cons sd have "valid_digitpart ds"
    by (simp add: parse_exponent_def split: if_splits)
  then have "\<forall>c \<in> set ds. \<not> is_sep c" by (rule digitpart_sep_free)
  from split_sign_chars[OF sd this] have "\<forall>c \<in> set cs. \<not> is_sep c" .
  moreover from c have "\<not> is_sep c" using sep_free_marks by blast
  ultimately show ?thesis by (simp add: Cons)
qed


lemma takeWhile_digit_chars: "\<forall>c \<in> set (takeWhile is_digit_or_us s). \<not> is_sep c"
  using is_sep_not_digit_or_us by (metis set_takeWhileD)

lemma sep_free_append:
  "\<forall>c \<in> set xs. \<not> is_sep c \<Longrightarrow> \<forall>c \<in> set ys. \<not> is_sep c \<Longrightarrow> zs = xs @ ys \<Longrightarrow>
   \<forall>c \<in> set zs. \<not> is_sep c"
  by auto


lemma parse_decimal_chars:
  assumes "parse_decimal neg body = Some v"
  shows "\<forall>c \<in> set body. \<not> is_sep c"
proof -
  let ?ip = "takeWhile is_digit_or_us body"
  let ?r1 = "dropWhile is_digit_or_us body"
  have body: "body = ?ip @ ?r1" by simp
  have ip: "\<forall>c \<in> set ?ip. \<not> is_sep c" by (rule takeWhile_digit_chars)
  have r1: "\<forall>c \<in> set ?r1. \<not> is_sep c"
  proof (cases ?r1)
    case Nil
    show ?thesis unfolding Nil by simp
  next
    case (Cons c cs)
    show ?thesis
    proof (cases "c = CHR ''.''")
      case True
      let ?fp = "takeWhile is_digit_or_us cs"
      let ?r2 = "dropWhile is_digit_or_us cs"
      have "parse_exponent ?r2 \<noteq> None"
      proof
        assume "parse_exponent ?r2 = None"
        with Cons True have "parse_decimal neg body = None"
          by (simp add: parse_decimal_def Let_def)
        with assms show False by simp
      qed
      then obtain e where "parse_exponent ?r2 = Some e" by blast
      from parse_exponent_chars[OF this] have r2: "\<forall>c \<in> set ?r2. \<not> is_sep c" .
      have fp: "\<forall>c \<in> set ?fp. \<not> is_sep c" by (rule takeWhile_digit_chars)
      have "cs = ?fp @ ?r2" by simp
      from sep_free_append[OF fp r2 this] have "\<forall>c \<in> set cs. \<not> is_sep c" .
      with True show ?thesis unfolding Cons by (simp add: sep_free_marks)
    next
      case False
      have "parse_exponent ?r1 \<noteq> None"
      proof
        assume "parse_exponent ?r1 = None"
        with Cons False have "parse_decimal neg body = None"
          by (simp add: parse_decimal_def Let_def)
        with assms show False by simp
      qed
      then obtain e where "parse_exponent ?r1 = Some e" by blast
      from parse_exponent_chars[OF this] show ?thesis .
    qed
  qed
  from sep_free_append[OF ip r1 body] show ?thesis .
qed

lemma to_lower_sep:
  assumes "is_sep c"
  shows "to_lower c = c"
proof -
  from is_sep_code[OF assms] have "\<not> 65 \<le> (of_char c :: nat)" by simp
  then show ?thesis by (simp add: to_lower_def)
qed


lemma lower_word_chars:
  assumes "lower body = w" and "\<forall>c \<in> set w. \<not> is_sep c"
  shows "\<forall>c \<in> set body. \<not> is_sep c"
proof
  fix c assume c: "c \<in> set body"
  show "\<not> is_sep c"
  proof
    assume s: "is_sep c"
    from c assms(1) have "to_lower c \<in> set w" by (auto simp: lower_def)
    with s assms(2) show False by (simp add: to_lower_sep)
  qed
qed


lemma special_words_sep_free:
  "\<forall>c \<in> set ''inf''. \<not> is_sep c" "\<forall>c \<in> set ''infinity''. \<not> is_sep c"
  "\<forall>c \<in> set ''nan''. \<not> is_sep c"
  by code_simp+

lemma py_float_chars:
  assumes "py_float s = Some v"
  shows "\<forall>c \<in> set s. \<not> is_sep c"
proof -
  obtain neg body where sd: "split_sign s = (neg, body)" by (cases "split_sign s")
  have "\<forall>c \<in> set body. \<not> is_sep c"
  proof (cases "lower body = ''inf'' \<or> lower body = ''infinity'' \<or> lower body = ''nan''")
    case True
    with special_words_sep_free show ?thesis using lower_word_chars by blast
  next
    case False
    with assms sd have "parse_decimal neg body = Some v"
      by (simp add: py_float_def Let_def)
    then show ?thesis by (rule parse_decimal_chars)
  qed
  from split_sign_chars[OF sd this] show ?thesis .
qed


lemma py_float_nonempty: "py_float s = Some v \<Longrightarrow> s \<noteq> []"
proof
  assume "py_float s = Some v" and "s = []"
  moreover have "py_float [] = None" by code_simp
  ultimately show False by simp
qed


lemma py_float_not_comment:
  assumes "py_float s = Some v"
  shows "\<not> startswith s ''#''"
proof
  assume "startswith s ''#''"
  then obtain rest where s: "s = CHR ''#'' # rest"
    by (cases s) auto
  have sd: "split_sign s = (False, s)"
    by (simp add: s split_sign_def)
  have "to_lower CHR ''#'' = CHR ''#''" by code_simp
  then have low: "lower s = CHR ''#'' # lower rest"
    by (simp add: s lower_def)
  have nd: "\<not> is_digit_or_us CHR ''#''" by code_simp
  have "parse_decimal False s = None"
    using nd by (simp add: s parse_decimal_def)
  with assms sd low show False
    by (simp add: py_float_def)
qed

lemma cleaned_sep:
  assumes s: "is_sep c" and c: "c \<in> set tok"
  shows "c \<in> set (cleaned tok)"
proof -
  let ?f = "\<lambda>c. if c = CHR ''D'' \<or> c = CHR ''d'' then CHR ''E'' else c"
  from is_sep_code[OF s] have le: "(of_char c :: nat) \<le> 44" .
  have "c \<noteq> CHR ''D''"
  proof
    assume "c = CHR ''D''"
    with le show False by simp
  qed
  moreover have "c \<noteq> CHR ''d''"
  proof
    assume "c = CHR ''d''"
    with le show False by simp
  qed
  ultimately have fc: "?f c = c" by simp
  from c have "?f c \<in> ?f ` set tok" by (rule imageI)
  with fc show ?thesis by (simp add: cleaned_def)
qed

lemma cleaned_hash: "startswith tok ''#'' \<Longrightarrow> startswith (cleaned tok) ''#''"
  by (cases tok) (simp_all add: cleaned_def)

lemma token_of_float:
  assumes "py_float (cleaned tok) = Some v"
  shows "tok \<noteq> []" and "\<forall>c \<in> set tok. \<not> is_sep c" and "\<not> startswith tok ''#''"
proof -
  from py_float_nonempty[OF assms] show "tok \<noteq> []" by (simp add: cleaned_def)
  show "\<forall>c \<in> set tok. \<not> is_sep c"
  proof (intro ballI notI)
    fix c assume "c \<in> set tok" and s: "is_sep c"
    then have "c \<in> set (cleaned tok)" by (simp add: cleaned_sep)
    with py_float_chars[OF assms] s show False by blast
  qed
  show "\<not> startswith tok ''#''"
  proof
    assume "startswith tok ''#''"
    then have "startswith (cleaned tok) ''#''" by (rule cleaned_hash)
    with py_float_not_comment[OF assms] show False by simp
  qed
qed

lemma split_lines_crlf:
  assumes "\<forall>c \<in> set l. \<not> brk c" and "brk (CHR 0x0D)"
  shows "split_lines brk (l @ CHR 0x0D # CHR 0x0A # rest) = l # split_lines brk rest"
  using assms(1)
proof (induction l)
  case Nil
  with assms(2) show ?case by simp
next
  case (Cons c l)
  then have "\<not> brk c" and "split_lines brk (l @ CHR 0x0D # CHR 0x0A # rest) = l # split_lines brk rest"
    by simp_all
  then show ?case by simp
qed

lemma file_lines_crlf:
  assumes "\<forall>l \<in> set ls. \<forall>c \<in> set l. c \<noteq> CHR 0x0A \<and> c \<noteq> CHR 0x0D"
  shows "file_lines (concat (map (\<lambda>l. l @ [CHR 0x0D, CHR 0x0A]) ls)) = ls"
  using assms
proof (induction ls)
  case Nil
  then show ?case by (simp add: file_lines_def)
next
  case (Cons l ls)
  then have l: "\<forall>c \<in> set l. \<not> (c = CHR 0x0A \<or> c = CHR 0x0D)"
    and ih: "file_lines (concat (map (\<lambda>l. l @ [CHR 0x0D, CHR 0x0A]) ls)) = ls"
    by simp_all
  have "split_lines (\<lambda>c. c = CHR 0x0A \<or> c = CHR 0x0D)
          (l @ CHR 0x0D # CHR 0x0A # concat (map (\<lambda>l. l @ [CHR 0x0D, CHR 0x0A]) ls))
        = l # split_lines (\<lambda>c. c = CHR 0x0A \<or> c = CHR 0x0D)
                (concat (map (\<lambda>l. l @ [CHR 0x0D, CHR 0x0A]) ls))"
    by (rule split_lines_crlf[OF l]) simp
  with ih show ?case by (simp add: file_lines_def)
qed

lemma is_sep_marks: "is_sep CHR '',''" "is_sep (CHR 0x0A)" "is_sep (CHR 0x0D)"
  by code_simp+

lemma is_space_sep: "is_space c \<Longrightarrow> is_sep c"
  by (simp add: is_sep_def)

lemma set_join: "set (join sep xs) \<subseteq> set sep \<union> \<Union> (set ` set xs)"
  by (induction sep xs rule: join.induct) auto

lemma hd_join: "t \<noteq> [] \<Longrightarrow> hd (join sep (t # ts)) = hd t"
  by (cases ts) simp_all

lemma join_nonempty: "t \<noteq> [] \<Longrightarrow> join sep (t # ts) \<noteq> []"
  by (cases ts) simp_all

lemma last_join:
  "ts \<noteq> [] \<Longrightarrow> \<forall>t \<in> set ts. t \<noteq> [] \<Longrightarrow> last (join sep ts) = last (last ts)"
proof (induction sep ts rule: join.induct)
  case (1 sep)
  then show ?case by simp
next
  case (2 sep x)
  then show ?case by simp
next
  case (3 sep x y ys)
  then have "join sep (y # ys) \<noteq> []" by (simp add: join_nonempty)
  with 3 show ?case by simp
qed

lemma strip_id:
  assumes "s \<noteq> []" and "\<not> is_space (hd s)" and "\<not> is_space (last s)"
  shows "strip s = s"
proof -
  from assms(2) have "dropWhile is_space s = s"
    by (simp add: dropWhile_eq_self_iff)
  moreover from assms(1,3) have "dropWhile is_space (rev s) = rev s"
    by (simp add: dropWhile_eq_self_iff hd_rev)
  ultimately show ?thesis by (simp add: strip_def)
qed

lemma split_tokens_token:
  "\<forall>c \<in> set tok. \<not> is_sep c \<Longrightarrow> split_tokens cur (tok @ rest) = split_tokens (rev tok @ cur) rest"
  by (induction tok arbitrary: cur) simp_all

lemma tokenize_join:
  assumes "toks \<noteq> []" and "\<forall>t \<in> set toks. t \<noteq> [] \<and> (\<forall>c \<in> set t. \<not> is_sep c)"
  shows "tokenize (join '','' toks) = toks"
  using assms
proof (induction "'',''" toks rule: join.induct)
  case 1
  then show ?case by simp
next
  case (2 x)
  then have "split_tokens [] (x @ []) = split_tokens (rev x @ []) []"
    by (intro split_tokens_token) simp
  with 2 show ?case by (simp add: tokenize_def)
next
  case (3 x y ys)
  then have ih: "tokenize (join '','' (y # ys)) = y # ys" by simp
  from 3 have x: "x \<noteq> []" "\<forall>c \<in> set x. \<not> is_sep c" by simp_all
  have "split_tokens [] (x @ CHR '','' # join '','' (y # ys))
          = split_tokens (rev x @ []) (CHR '','' # join '','' (y # ys))"
    by (rule split_tokens_token[OF x(2)])
  also have "\<dots> = x # split_tokens [] (join '','' (y # ys))"
    using x(1) by (simp add: is_sep_marks)
  finally show ?case using ih by (simp add: tokenize_def)
qed

lemma parse_tokens_repr:
  "\<forall>v \<in> set row. py_float (cleaned (repr v)) = Some v \<Longrightarrow> parse_tokens (map repr row) = Some row"
  by (induction row) simp_all

lemma startswith_hash: "s \<noteq> [] \<Longrightarrow> startswith s ''#'' = (hd s = CHR ''#'')"
  by (cases s) simp_all

lemma line_row_csv:
  assumes ne: "row \<noteq> []" and ok: "\<forall>v \<in> set row. py_float (cleaned (repr v)) = Some v"
  shows "line_row (join '','' (map repr row)) = Some row"
    and "\<forall>c \<in> set (join '','' (map repr row)). c \<noteq> CHR 0x0A \<and> c \<noteq> CHR 0x0D"
proof -
  let ?toks = "map repr row"
  let ?line = "join '','' ?toks"
  have toks: "\<forall>t \<in> set ?toks. t \<noteq> [] \<and> (\<forall>c \<in> set t. \<not> is_sep c)"
    using ok token_of_float by auto
  from ne obtain v vs where row: "row = v # vs" by (cases row) auto
  have tne: "?toks \<noteq> []" using ne by simp
  have first: "repr v \<noteq> []" "\<not> is_sep (hd (repr v))" "\<not> startswith (repr v) ''#''"
    using ok row token_of_float[of "repr v" v] by (auto simp: hd_in_set)
  have line_ne: "?line \<noteq> []" using first(1) by (simp add: row join_nonempty)
  have hd_line: "hd ?line = hd (repr v)" using first(1) by (simp add: row hd_join)
  have "last ?toks \<in> set ?toks" using tne by (rule last_in_set)
  with toks have lt: "last ?toks \<noteq> []" "\<forall>c \<in> set (last ?toks). \<not> is_sep c" by blast+
  have "last ?line = last (last ?toks)"
    using tne toks by (intro last_join) auto
  with lt have last_line: "\<not> is_sep (last ?line)" by (simp add: last_in_set)
  have strip: "strip ?line = ?line"
    using line_ne hd_line first(2) last_line is_space_sep by (intro strip_id) auto
  have nohash: "\<not> startswith ?line ''#''"
    using first(1,3) hd_line line_ne by (simp add: startswith_hash)
  have tok: "tokenize ?line = ?toks"
    using tne toks by (rule tokenize_join)
  show "line_row ?line = Some row"
    using line_ne nohash tne ne
    by (simp add: line_row_def strip tok parse_tokens_repr[OF ok] Let_def)
  show "\<forall>c \<in> set ?line. c \<noteq> CHR 0x0A \<and> c \<noteq> CHR 0x0D"
  proof
    fix c assume "c \<in> set ?line"
    with set_join[of "'',''" ?toks] have "c = CHR '','' \<or> (\<exists>t \<in> set ?toks. c \<in> set t)"
      by auto
    then show "c \<noteq> CHR 0x0A \<and> c \<noteq> CHR 0x0D"
    proof
      assume "c = CHR '',''"
      then show ?thesis by simp
    next
      assume "\<exists>t \<in> set ?toks. c \<in> set t"
      with toks have "\<not> is_sep c" by blast
      with is_sep_marks show ?thesis by blast
    qed
  qed
qed

lemma collect_rows_csv:
  assumes "\<forall>row \<in> set rows. row \<noteq> [] \<and> (\<forall>v \<in> set row. py_float (cleaned (repr v)) = Some v)"
  shows "collect_rows (map (\<lambda>row. join '','' (map repr row)) rows) = rows"
  using assms by (induction rows) (simp_all add: line_row_csv(1))

lemma load_csv_text:
  assumes "rows \<noteq> []"
    and "\<forall>row \<in> set rows. row \<noteq> [] \<and> (\<forall>v \<in> set row. py_float (cleaned (repr v)) = Some v)"
  shows "load_numeric_table (Some (csv_text repr rows)) = Inr (map (pad_row (max_len rows)) rows)"
proof -
  let ?lines = "map (\<lambda>row. join '','' (map repr row)) rows"
  have csv_eq: "csv_text repr rows = concat (map (\<lambda>l. l @ [CHR 0x0D, CHR 0x0A]) ?lines)"
    by (simp add: csv_text_def comp_def)
  have "\<forall>l \<in> set ?lines. \<forall>c \<in> set l. c \<noteq> CHR 0x0A \<and> c \<noteq> CHR 0x0D"
  proof
    fix l assume "l \<in> set ?lines"
    then obtain row where row: "row \<in> set rows" and l: "l = join '','' (map repr row)"
      by auto
    from row assms(2) have "row \<noteq> []" and "\<forall>v \<in> set row. py_float (cleaned (repr v)) = Some v"
      by simp_all
    then show "\<forall>c \<in> set l. c \<noteq> CHR 0x0A \<and> c \<noteq> CHR 0x0D"
      unfolding l by (rule line_row_csv(2))
  qed
  then have "file_lines (csv_text repr rows) = ?lines"
    unfolding csv_eq by (rule file_lines_crlf)
  then have "collect_rows (file_lines (csv_text repr rows)) = rows"
    by (simp add: collect_rows_csv[OF assms(2)])
  with assms(1) show ?thesis
    by (simp add: load_numeric_table_def Let_def)
qed

lemma line_row_nonempty: "line_row raw = Some row \<Longrightarrow> row \<noteq> []"
  by (auto simp: line_row_def Let_def split: if_splits option.splits)

lemma collect_rows_nonempty: "row \<in> set (collect_rows ls) \<Longrightarrow> row \<noteq> []"
  by (induction ls) (auto split: option.splits dest: line_row_nonempty)

lemma parse_line_rows:
  "numeric_rows (parse_line raw st) =
     numeric_rows st @ (case line_row raw of None \<Rightarrow> [] | Some row \<Rightarrow> [row])"
  by (auto simp: parse_line_def line_row_def Let_def split: option.splits)

lemma fold_parse_line_rows:
  "numeric_rows (fold parse_line ls st) = numeric_rows st @ collect_rows ls"
  by (induction ls arbitrary: st) (auto simp: parse_line_rows split: option.splits)

lemma parse_stdout_rows: "numeric_rows (parse_stdout out) = collect_rows (splitlines out)"
  by (simp add: parse_stdout_def Let_def fold_parse_line_rows)

text \<open>
  C7. After a successful run whose output has numeric rows, the CSV file the run wrote
  loads back as a table with the same number of rows, with the width of the longest
  row, and with every cell of every row in its place and equal to the value written,
  provided \<open>repr\<close> of each written value is read back by \<open>float()\<close> as that value.
\<close>

theorem csv_round_trip:
  assumes run: "outcome env = Exited exe 0 out err"
    and writes: "stdout_write_error env = None" "csv_write_error env = None"
    and rows: "rows = numeric_rows (parse_stdout out)" "rows \<noteq> []"
    and repr: "\<forall>row \<in> set rows. \<forall>v \<in> set row. py_float (cleaned (repr v)) = Some v"
  shows "\<exists>table. load_numeric_table (files (run_brdfprog repr env s) (csv_filename (timestamp env)))
                    = Inr table
           \<and> length table = length rows
           \<and> (\<forall>i < length rows. length (table ! i) = max_len rows
                  \<and> take (length (rows ! i)) (table ! i) = rows ! i)"
proof -
  let ?table = "map (pad_row (max_len rows)) rows"
  have written: "files (run_brdfprog repr env s) (csv_filename (timestamp env))
                   = Some (csv_text repr rows)"
    using successful_run_writes_csv[OF run writes, of repr s] rows by simp
  have "\<forall>row \<in> set rows. row \<noteq> []"
    using rows(1) collect_rows_nonempty by (simp add: parse_stdout_rows)
  with repr have ok: "\<forall>row \<in> set rows. row \<noteq> [] \<and> (\<forall>v \<in> set row. py_float (cleaned (repr v)) = Some v)"
    by simp
  have load: "load_numeric_table (files (run_brdfprog repr env s) (csv_filename (timestamp env)))
                = Inr ?table"
    unfolding written by (rule load_csv_text[OF rows(2) ok])
  have cells: "\<forall>i < length rows. length (?table ! i) = max_len rows
                  \<and> take (length (rows ! i)) (?table ! i) = rows ! i"
  proof (intro allI impI)
    fix i assume i: "i < length rows"
    then have "rows ! i \<in> set rows" by simp
    from length_le_max_len[OF this] i
    show "length (?table ! i) = max_len rows \<and> take (length (rows ! i)) (?table ! i) = rows ! i"
      by (simp add: pad_row_def)
  qed
  have "length ?table = length rows" by simp
  with load cells show ?thesis by blast
qed

theorem csv_round_trip_witness:
  "\<exists>table. load_numeric_table
       (files (run_brdfprog
          (\<lambda>v. if v = Fin 10 then ''10.0'' else if v = Fin 1 then ''1.0''
                else if v = Fin 20 then ''20.0'' else if v = Fin (5 / 2) then ''2.5''
                else ''3e+00'')
          \<lparr> timestamp = ''2025-01-01_00-00-00'', input_lines = [''0''],
            scatmech_bin = ''bin'',
            outcome = Exited ''/usr/bin/brdfprog'' 0 ''Theta S11\<newline>10 1.0\<newline>20 2.5 3\<newline>'' [],
            stdout_write_error = None, csv_write_error = None, meta_write_error = None,
            meta_json = ''{}'', render_messages = [] \<rparr>
          \<lparr> files = Map.empty, last_input_path = None, last_stdout_path = None,
            last_csv_path = None, output_box = [] \<rparr>)
        ''../DATA/brdf_output_2025-01-01_00-00-00.csv'') = Inr table
     \<and> length table = 2
     \<and> length (table ! 0) = 3 \<and> take 2 (table ! 0) = [Fin 10, Fin 1]
     \<and> table ! 1 = [Fin 20, Fin (5 / 2), Fin 3]"
proof -
  let ?repr = "\<lambda>v. if v = Fin 10 then ''10.0'' else if v = Fin 1 then ''1.0''
                else if v = Fin 20 then ''20.0'' else if v = Fin (5 / 2) then ''2.5''
                else ''3e+00''"
  let ?out = "''Theta S11\<newline>10 1.0\<newline>20 2.5 3\<newline>''"
  let ?env = "\<lparr> timestamp = ''2025-01-01_00-00-00'', input_lines = [''0''],
            scatmech_bin = ''bin'',
            outcome = Exited ''/usr/bin/brdfprog'' 0 ?out [],
            stdout_write_error = None, csv_write_error = None, meta_write_error = None,
            meta_json = ''{}'', render_messages = [] \<rparr>"
  let ?s = "\<lparr> files = Map.empty, last_input_path = None, last_stdout_path = None,
            last_csv_path = None, output_box = [] \<rparr>"
  let ?rows = "[[Fin 10, Fin 1], [Fin 20, Fin (5 / 2), Fin 3]]"
  have run: "outcome ?env = Exited ''/usr/bin/brdfprog'' 0 ?out []" by simp
  have w1: "stdout_write_error ?env = None" and w2: "csv_write_error ?env = None" by simp_all
  have rows: "?rows = numeric_rows (parse_stdout ?out)" by code_simp
  have ne: "?rows \<noteq> []" by simp
  have f: "py_float (cleaned ''10.0'') = Some (Fin 10)" "py_float (cleaned ''1.0'') = Some (Fin 1)"
    "py_float (cleaned ''20.0'') = Some (Fin 20)" "py_float (cleaned ''2.5'') = Some (Fin (5 / 2))"
    "py_float (cleaned ''3e+00'') = Some (Fin 3)"
    by code_simp+
  have repr: "\<forall>row \<in> set ?rows. \<forall>v \<in> set row. py_float (cleaned (?repr v)) = Some v"
    by (simp add: f)
  have ts: "csv_filename (timestamp ?env) = ''../DATA/brdf_output_2025-01-01_00-00-00.csv''"
    by (simp add: csv_filename_def)
  have m: "max_len ?rows = 3" by code_simp
  from csv_round_trip[OF run w1 w2 rows ne repr, of ?s, unfolded ts]
  obtain table where load: "load_numeric_table (files (run_brdfprog ?repr ?env ?s)
        ''../DATA/brdf_output_2025-01-01_00-00-00.csv'') = Inr table"
    and len: "length table = length ?rows"
    and cells: "\<forall>i < length ?rows. length (table ! i) = max_len ?rows
                  \<and> take (length (?rows ! i)) (table ! i) = ?rows ! i"
    by blast
  have c0: "length (table ! 0) = 3 \<and> take 2 (table ! 0) = [Fin 10, Fin 1]"
    using cells[rule_format, of 0] by (simp add: m numeral_2_eq_2)
  have i1: "1 < length ?rows" by simp
  from cells i1 have a1: "length (table ! 1) = max_len ?rows"
    and b1: "take (length (?rows ! 1)) (table ! 1) = ?rows ! 1"
    by blast+
  from a1 have "length (table ! 1) = 3" by (simp only: m)
  then have "take (length (?rows ! 1)) (table ! 1) = table ! 1" by simp
  with b1 have "table ! 1 = ?rows ! 1" by (simp only:)
  then have c1: "table ! 1 = [Fin 20, Fin (5 / 2), Fin 3]" by simp
  from len have "length table = 2" by simp
  with load c0 c1 show ?thesis by blast
qed

end
